theory Spec2Isabelle
  imports Complex_Main "HOL-Library.Word"
begin

unbundle bit_operations_syntax

section \<open>SolaXd: the RS485 protocol engine of \<open>solaxd.c\<close>\<close>

text \<open>
  A shallow embedding of the protocol engine of \<open>solaxd.c\<close>: the additive frame
  checksum, frame transmission and reception, the telemetry decoder, the query state
  machine with its online flag, and the windowed average over the sample history.

  Conventions of the embedding.
  \<^item> \<open>uint8_t\<close>, \<open>uint16_t\<close> and \<open>uint32_t\<close> are \<open>8 word\<close>, \<open>16 word\<close>
    and \<open>32 word\<close>; \<open>int\<close> variables are \<open>int\<close> (none of them leaves the range
    of a C \<open>int\<close> in the runs considered).
  \<^item> A \<open>Solax_Message_t\<close> is modelled by its memory image, the list of its 109 bytes
    in declaration order (all members are \<open>uint8_t\<close>, so there is no padding), because
    the program itself reads, writes and sums the structure through a \<open>uint8_t\<close> pointer.
  \<^item> A function returns \<open>None\<close> where the C program has no defined result: an
    access outside the object, or a loop that does not end.
  \<^item> The log output (\<open>ERROR_MESSAGE\<close> ... \<open>TRACE_MESSAGE\<close>) is not modelled, and the
    test mode (\<open>arg_TestMode\<close>) is off; its sample frames are kept as constants.
\<close>

type_synonym u8 = "8 word"
type_synonym u16 = "16 word"
type_synonym u32 = "32 word"

subsection \<open>Macros and enumerations\<close>

text \<open>\<^verbatim>\<open>#define lowByte(i) ((uint8_t) i)\<close> and
  \<^verbatim>\<open>#define highByte(i) ((uint8_t) (((int) i) >> 8))\<close>, applied to a \<open>uint16_t\<close>.\<close>

definition lowByte :: "u16 \<Rightarrow> u8" where
  "lowByte i = ucast i"

definition highByte :: "u16 \<Rightarrow> u8" where
  "highByte i = ucast (drop_bit 8 i)"

datatype Solax_StateQuery_t = STATE_BROARDCAST | STATE_INVERTER_ADDRESS | STATE_QUERY_LIVE_DATA

text \<open>The enumeration \<open>Solax_ErrorQuery_t\<close>; \<open>ERR_MINUS_1\<close> is the value \<open>-1\<close> that
  the functions return after a failed \<open>read\<close> or \<open>write\<close>.\<close>

datatype Solax_ErrorQuery_t = ERR_NONE | ERR_NO_DATA | ERR_INVALID_MSG | ERR_CRC_ERROR | ERR_MINUS_1

subsection \<open>The message structure\<close>

text \<open>\<open>sizeof(Solax_Message_t)\<close>: Header[2], Source[2], Destination[2], ControlCode,
  FunctionCode, DataLength, Data[100].\<close>

definition sizeof_Solax_Message_t :: nat where
  "sizeof_Solax_Message_t = 109"

definition Header0 :: "u8 list \<Rightarrow> u8" where "Header0 m = m ! 0"
definition Header1 :: "u8 list \<Rightarrow> u8" where "Header1 m = m ! 1"
definition ControlCode :: "u8 list \<Rightarrow> u8" where "ControlCode m = m ! 6"
definition FunctionCode :: "u8 list \<Rightarrow> u8" where "FunctionCode m = m ! 7"
definition DataLength :: "u8 list \<Rightarrow> u8" where "DataLength m = m ! 8"

text \<open>\<open>m.Data[k]\<close> for an index \<open>k\<close> inside the array \<open>Data[100]\<close>.\<close>

definition Data :: "u8 list \<Rightarrow> nat \<Rightarrow> u8" where
  "Data m k = m ! (9 + k)"

text \<open>Reading and writing \<open>m.Data[k]\<close> for a computed index: outside \<open>Data[100]\<close>
  the access is undefined.\<close>

definition Data_read :: "u8 list \<Rightarrow> nat \<Rightarrow> u8 option" where
  "Data_read m k = (if k < 100 then Some (Data m k) else None)"

definition Data_write :: "u8 list \<Rightarrow> nat \<Rightarrow> u8 \<Rightarrow> u8 list option" where
  "Data_write m k v = (if k < 100 then Some (m[9 + k := v]) else None)"

subsection \<open>The checksum\<close>

text \<open>
  \<^verbatim>\<open>for (i = 0; i <= dataLen; i++) chkSum = chkSum + data[i];\<close> with \<open>uint8_t i\<close>
  and \<open>uint16_t chkSum\<close>. The index wraps at 256, so the loop does not end when
  \<open>dataLen = 255\<close> and the object is long enough; a read past the end of the object
  \<open>data\<close> points to is undefined.
\<close>

partial_function (option) CalculateCRC_loop :: "u8 list \<Rightarrow> u8 \<Rightarrow> u8 \<Rightarrow> u16 \<Rightarrow> u16 option" where
  "CalculateCRC_loop data dataLen i chkSum =
     (if i \<le> dataLen then
        (if unat i < length data
         then CalculateCRC_loop data dataLen (i + 1) (chkSum + ucast (data ! unat i))
         else None)
      else Some chkSum)"

declare CalculateCRC_loop.simps [code]

definition solax_CalculateCRC :: "u8 list \<Rightarrow> u8 \<Rightarrow> u16 option" where
  "solax_CalculateCRC data dataLen = CalculateCRC_loop data dataLen 0 0"

text \<open>The 16-bit additive checksum in closed form: the sum of the bytes modulo 65536.\<close>

definition sum16 :: "u8 list \<Rightarrow> u16" where
  "sum16 bs = word_of_nat (sum_list (map unat bs))"

subsection \<open>Transmission\<close>

text \<open>
  \<open>solax_RS485_Send\<close>. The parameter \<open>wr\<close> stands for the system call \<open>write\<close>: it
  gives the number of bytes \<open>write\<close> reports for the bytes handed to it. The result is
  the message buffer after the call, the bytes handed to \<open>write\<close> and the return value.
  \<open>msgLen\<close> is a \<open>uint8_t\<close>; the index \<open>DataLength + 1\<close> is an \<open>int\<close>.
\<close>

definition solax_RS485_Send ::
  "u8 list \<Rightarrow> (u8 list \<Rightarrow> int) \<Rightarrow> (u8 list \<times> u8 list \<times> Solax_ErrorQuery_t) option" where
  "solax_RS485_Send txMessage wr =
     (let m1 = txMessage[0 := 0xAA];
          m2 = m1[1 := 0x55];
          msgLen = DataLength m2 + 9
      in case solax_CalculateCRC m2 (msgLen - 1) of
           None \<Rightarrow> None
         | Some crc \<Rightarrow>
            (case Data_write m2 (unat (DataLength m2) + 0) (highByte crc) of
               None \<Rightarrow> None
             | Some m3 \<Rightarrow>
                (case Data_write m3 (unat (DataLength m3) + 1) (lowByte crc) of
                   None \<Rightarrow> None
                 | Some m4 \<Rightarrow>
                    (let n = unat (msgLen + 2) in
                     if length m4 < n then None
                     else Some (m4, take n m4,
                                if wr (take n m4) \<noteq> int n then ERR_MINUS_1 else ERR_NONE)))))"

text \<open>The bytes that \<open>solax_RS485_Send\<close> hands to \<open>write\<close>: the encoded frame.\<close>

definition tx_frame :: "u8 list \<Rightarrow> u8 list option" where
  "tx_frame txMessage = map_option (\<lambda>(m, frame, e). frame) (solax_RS485_Send txMessage (\<lambda>bs. int (length bs)))"

text \<open>Marker, header (source, destination, control code, function code, data length)
  and payload of a message to send, as they go on the wire before the checksum.\<close>

definition tx_body :: "u8 list \<Rightarrow> u8 list" where
  "tx_body txMessage =
     [0xAA, 0x55] @ take 7 (drop 2 txMessage) @
     take (unat (DataLength txMessage)) (drop 9 txMessage)"

subsection \<open>Reception\<close>

text \<open>
  \<^verbatim>\<open>rxLen = read(fd_tty, rxMessage, sizeof(Solax_Message_t))\<close>. The argument
  \<open>r\<close> is what the serial line delivers: \<open>None\<close> for a failed \<open>read\<close>, \<open>Some bs\<close>
  for the pending bytes, of which \<open>read\<close> stores at most 109 at the start of the
  buffer; the rest of the buffer keeps what earlier calls left there.
\<close>

definition read_tty :: "u8 list \<Rightarrow> u8 list option \<Rightarrow> u8 list \<times> int" where
  "read_tty rxMessage r =
     (case r of
        None \<Rightarrow> (rxMessage, - 1)
      | Some bs \<Rightarrow>
          (let n = min (length bs) sizeof_Solax_Message_t
           in (take n bs @ drop n rxMessage, int n)))"

definition solax_RS485_Receive ::
  "u8 list \<Rightarrow> u8 list option \<Rightarrow> (Solax_ErrorQuery_t \<times> u8 list) option" where
  "solax_RS485_Receive rxMessage0 r =
     (let (rxMessage, rxLen) = read_tty rxMessage0 r in
      if rxLen < 0 then Some (ERR_MINUS_1, rxMessage)
      else if rxLen = 0 then Some (ERR_NO_DATA, rxMessage)
      else if rxLen < 11 \<or> Header0 rxMessage \<noteq> 0xAA \<or> Header1 rxMessage \<noteq> 0x55
        then Some (ERR_INVALID_MSG, rxMessage)
      else
        (let msgLen = DataLength rxMessage + 9 in
         if uint msgLen + 2 > rxLen then Some (ERR_INVALID_MSG, rxMessage)
         else
           (case solax_CalculateCRC rxMessage (msgLen - 1) of
              None \<Rightarrow> None
            | Some crc \<Rightarrow>
               (case Data_read rxMessage (unat (DataLength rxMessage) + 0) of
                  None \<Rightarrow> None
                | Some c0 \<Rightarrow>
                    if c0 \<noteq> highByte crc then Some (ERR_CRC_ERROR, rxMessage)
                    else
                      (case Data_read rxMessage (unat (DataLength rxMessage) + 1) of
                         None \<Rightarrow> None
                       | Some c1 \<Rightarrow>
                           if c1 \<noteq> lowByte crc then Some (ERR_CRC_ERROR, rxMessage)
                           else Some (ERR_NONE, rxMessage))))))"

text \<open>The bytes of a received frame from the marker through the last payload byte, the
  payload length being the ninth byte.\<close>

definition rx_body :: "u8 list \<Rightarrow> u8 list" where
  "rx_body bs = take (9 + unat (bs ! 8)) bs"

text \<open>The sample frames of the test mode.\<close>

definition rx_msg_1 :: "u8 list" where
  "rx_msg_1 = [0xAA, 0x55, 0x00, 0xFF, 0x01, 0x00, 0x10, 0x80, 0x0E, 0x31, 0x32, 0x33, 0x34,
     0x35, 0x36, 0x37, 0x37, 0x36, 0x35, 0x34, 0x33, 0x32, 0x31, 0x05, 0x75]"

definition rx_msg_2 :: "u8 list" where
  "rx_msg_2 = [0xAA, 0x55, 0x00, 0x0A, 0x00, 0x00, 0x10, 0x81, 0x01, 0x06, 0x01, 0xA1]"

definition rx_msg_3 :: "u8 list" where
  "rx_msg_3 = [0xAA, 0x55, 0x00, 0x0A, 0x01, 0x00, 0x11, 0x82, 0x32, 0x00, 0x0B, 0x00, 0x01,
     0x06, 0xDD, 0x00, 0x00, 0x00, 0x1F, 0x00, 0x00, 0x00, 0x15, 0x09, 0x21, 0x13, 0x87, 0x01,
     0xE7, 0xFF, 0xFF, 0x00, 0x00, 0x12, 0xD3, 0x00, 0x00, 0x0A, 0x0F, 0x00, 0x02, 0x00, 0x00,
     0x00, 0x00, 0x00, 0x00, 0x00, 0x00, 0x00, 0x00, 0x00, 0x00, 0x00, 0x00, 0x00, 0x00, 0x00,
     0x00, 0x07, 0x9C]"

definition rx_msg_4 :: "u8 list" where
  "rx_msg_4 = [0xAA, 0x55, 0x00, 0x0A, 0x01, 0x00, 0x11, 0x82, 0x32, 0x00, 0x0B, 0x00, 0x01,
     0x06, 0xCB, 0x00, 0x00, 0x00, 0x1E, 0x00, 0x00, 0x00, 0x14, 0x09, 0x22, 0x13, 0x89, 0x01,
     0xD7, 0xFF, 0xFF, 0x00, 0x00, 0x12, 0xD3, 0x00, 0x00, 0x0A, 0x0F, 0x00, 0x02, 0x00, 0x00,
     0x00, 0x00, 0x00, 0x00, 0x00, 0x00, 0x00, 0x00, 0x00, 0x00, 0x00, 0x00, 0x00, 0x00, 0x00,
     0x00, 0x07, 0x7B]"

text \<open>
  A further live-data response, not in the source: \<open>rx_msg_3\<close> with the bytes of
  Energy_Total (\<open>Data[22..25]\<close>) and Runtime_Total (\<open>Data[26..29]\<close>) cleared and the
  checksum adjusted (\<open>0x079C - 0x12 - 0xD3 - 0x0A - 0x0F = 0x069E\<close>).
\<close>

definition rx_msg_zero_totals :: "u8 list" where
  "rx_msg_zero_totals = [0xAA, 0x55, 0x00, 0x0A, 0x01, 0x00, 0x11, 0x82, 0x32, 0x00, 0x0B,
     0x00, 0x01, 0x06, 0xDD, 0x00, 0x00, 0x00, 0x1F, 0x00, 0x00, 0x00, 0x15, 0x09, 0x21, 0x13,
     0x87, 0x01, 0xE7, 0xFF, 0xFF, 0x00, 0x00, 0x00, 0x00, 0x00, 0x00, 0x00, 0x00, 0x00, 0x02,
     0x00, 0x00, 0x00, 0x00, 0x00, 0x00, 0x00, 0x00, 0x00, 0x00, 0x00, 0x00, 0x00, 0x00, 0x00,
     0x00, 0x00, 0x00, 0x06, 0x9E]"

subsection \<open>Telemetry samples\<close>

text \<open>
  The members of \<open>Solax_LiveData_t\<close> are C \<open>float\<close>s. Their arithmetic is a parameter
  of the embedding: a record of the operations the program applies to them, about which
  nothing is assumed. Every theorem below therefore holds for whatever the target's
  \<open>float\<close> does, rounding included. \<open>flt_of_int\<close> is the conversion of an integer value
  to \<open>float\<close>, \<open>flt_c01\<close> and \<open>flt_c001\<close> are the literals \<open>0.1f\<close> and \<open>0.01f\<close>.
\<close>

record 'f float_ops =
  flt_zero :: 'f
  flt_of_int :: "int \<Rightarrow> 'f"
  flt_c01 :: 'f
  flt_c001 :: 'f
  flt_add :: "'f \<Rightarrow> 'f \<Rightarrow> 'f"
  flt_mul :: "'f \<Rightarrow> 'f \<Rightarrow> 'f"
  flt_div :: "'f \<Rightarrow> 'f \<Rightarrow> 'f"
  flt_less :: "'f \<Rightarrow> 'f \<Rightarrow> bool"

text \<open>Exact rational arithmetic, an instance on which concrete runs are evaluated.\<close>

definition exact_ops :: "rat float_ops" where
  "exact_ops = \<lparr>flt_zero = 0, flt_of_int = of_int, flt_c01 = 1 / 10, flt_c001 = 1 / 100,
     flt_add = (+), flt_mul = (*), flt_div = (/), flt_less = (<)\<rparr>"

record 'f Solax_LiveData_t =
  valid :: bool
  Temperature :: 'f
  Energy_Today :: 'f
  DC1_Voltage :: 'f
  DC2_Voltage :: 'f
  DC1_Current :: 'f
  DC2_Current :: 'f
  AC_Current :: 'f
  AC_Voltage :: 'f
  Frequency :: 'f
  Power :: 'f
  Energy_Total :: 'f
  Runtime_Total :: 'f
  Status :: u8
  ErrorBits :: u32

text \<open>The value of \<^verbatim>\<open>(Solax_LiveData_t) {0}\<close>.\<close>

definition LiveData_zero :: "'f float_ops \<Rightarrow> 'f Solax_LiveData_t" where
  "LiveData_zero F = \<lparr>valid = False, Temperature = flt_zero F, Energy_Today = flt_zero F,
     DC1_Voltage = flt_zero F, DC2_Voltage = flt_zero F, DC1_Current = flt_zero F,
     DC2_Current = flt_zero F, AC_Current = flt_zero F, AC_Voltage = flt_zero F,
     Frequency = flt_zero F, Power = flt_zero F, Energy_Total = flt_zero F,
     Runtime_Total = flt_zero F, Status = 0, ErrorBits = 0\<rparr>"

text \<open>\<^verbatim>\<open>value = (rxMessage.Data[a] << 8) | rxMessage.Data[b]\<close> and its four-byte form,
  as the \<open>uint32_t\<close> stored in \<open>value\<close>.\<close>

definition Data_value2 :: "u8 list \<Rightarrow> nat \<Rightarrow> nat \<Rightarrow> u32" where
  "Data_value2 m a b = push_bit 8 (ucast (Data m a)) OR ucast (Data m b)"

definition Data_value4 :: "u8 list \<Rightarrow> nat \<Rightarrow> nat \<Rightarrow> nat \<Rightarrow> nat \<Rightarrow> u32" where
  "Data_value4 m a b c d =
     push_bit 24 (ucast (Data m a)) OR push_bit 16 (ucast (Data m b)) OR
     push_bit 8 (ucast (Data m c)) OR ucast (Data m d)"

text \<open>The last branch of the case \<open>STATE_QUERY_LIVE_DATA\<close> of \<open>solax_ReceiveQuery\<close>:
  the assignments to \<open>*liveData\<close>, in the order of the source.\<close>

definition ReceiveQuery_LiveData ::
  "'f float_ops \<Rightarrow> u8 list \<Rightarrow> 'f Solax_LiveData_t \<Rightarrow> 'f Solax_LiveData_t" where
  "ReceiveQuery_LiveData F rxMessage liveData =
     (let l1 = liveData\<lparr>Temperature := flt_of_int F (uint (Data_value2 rxMessage 0 1))\<rparr>;
          l2 = l1\<lparr>Energy_Today := flt_mul F (flt_of_int F (uint (Data_value2 rxMessage 2 3))) (flt_c01 F)\<rparr>;
          l3 = l2\<lparr>DC1_Voltage := flt_mul F (flt_of_int F (uint (Data_value2 rxMessage 4 5))) (flt_c01 F)\<rparr>;
          l4 = l3\<lparr>DC2_Voltage := flt_mul F (flt_of_int F (uint (Data_value2 rxMessage 6 7))) (flt_c01 F)\<rparr>;
          l5 = l4\<lparr>DC1_Current := flt_mul F (flt_of_int F (uint (Data_value2 rxMessage 8 9))) (flt_c01 F)\<rparr>;
          l6 = l5\<lparr>DC2_Current := flt_mul F (flt_of_int F (uint (Data_value2 rxMessage 10 11))) (flt_c01 F)\<rparr>;
          l7 = l6\<lparr>AC_Current := flt_mul F (flt_of_int F (uint (Data_value2 rxMessage 12 13))) (flt_c01 F)\<rparr>;
          l8 = l7\<lparr>AC_Voltage := flt_mul F (flt_of_int F (uint (Data_value2 rxMessage 14 15))) (flt_c01 F)\<rparr>;
          l9 = l8\<lparr>Frequency := flt_mul F (flt_of_int F (uint (Data_value2 rxMessage 16 17))) (flt_c001 F)\<rparr>;
          l10 = l9\<lparr>Power := flt_of_int F (uint (Data_value2 rxMessage 18 19))\<rparr>;
          v11 = Data_value4 rxMessage 22 23 24 25;
          l11 = (if v11 \<noteq> 0 then l10\<lparr>Energy_Total := flt_mul F (flt_of_int F (uint v11)) (flt_c01 F)\<rparr> else l10);
          v12 = Data_value4 rxMessage 26 27 28 29;
          l12 = (if v12 \<noteq> 0 then l11\<lparr>Runtime_Total := flt_of_int F (uint v12)\<rparr> else l11);
          l13 = l12\<lparr>Status := ucast (Data_value2 rxMessage 30 31)\<rparr>;
          l14 = l13\<lparr>ErrorBits := Data_value4 rxMessage 49 48 47 46\<rparr>
      in l14\<lparr>valid := True\<rparr>)"

text \<open>
  The reading of a payload field that the table of section 4.2 of the specification
  describes: the big-endian value of a byte sequence, and the \<open>w\<close> bytes of \<open>Data\<close>
  from offset \<open>off\<close>.
\<close>

definition big_endian :: "u8 list \<Rightarrow> int" where
  "big_endian bs = foldl (\<lambda>acc b. acc * 256 + uint b) 0 bs"

definition payload_field :: "u8 list \<Rightarrow> nat \<Rightarrow> nat \<Rightarrow> int" where
  "payload_field m off w = big_endian (map (Data m) [off..<off + w])"

subsection \<open>The static data of the program\<close>

text \<open>
  \<open>rxMessage\<close> is the static buffer of \<open>solax_ReceiveQuery\<close>; \<open>stateQuery\<close>,
  \<open>timeoutInverterOnline\<close> and \<open>countError\<close> are the static variables of
  \<open>solax_QueryHandle\<close>; the other two are globals. The static \<open>txMessage\<close> buffers of
  the three send functions are not part of the state: every byte the program transmits
  from them is assigned in the same call.
\<close>

record solax_statics =
  rxMessage :: "u8 list"
  solax_InverterSerialNumber :: "u8 list"
  solax_InverterOnline :: bool
  stateQuery :: Solax_StateQuery_t
  timeoutInverterOnline :: int
  countError :: int

definition TIMEOUT_INVERTER_ONLINE :: int where
  "TIMEOUT_INVERTER_ONLINE = 30"

definition statics_init :: solax_statics where
  "statics_init = \<lparr>rxMessage = replicate sizeof_Solax_Message_t 0,
     solax_InverterSerialNumber = replicate 15 0, solax_InverterOnline = False,
     stateQuery = STATE_QUERY_LIVE_DATA, timeoutInverterOnline = TIMEOUT_INVERTER_ONLINE,
     countError = 0\<rparr>"

subsection \<open>Receiving a response\<close>

text \<open>
  \<open>solax_ReceiveQuery\<close>: \<open>liveData0\<close> is the sample \<open>liveData\<close> points to before the
  call. Only the last branch of each case changes anything; the others log. The result
  is the return value, the sample after the call and the static data after the call.
\<close>

definition solax_ReceiveQuery ::
  "'f float_ops \<Rightarrow> Solax_StateQuery_t \<Rightarrow> solax_statics \<Rightarrow> 'f Solax_LiveData_t \<Rightarrow> u8 list option \<Rightarrow>
   (Solax_ErrorQuery_t \<times> 'f Solax_LiveData_t \<times> solax_statics) option" where
  "solax_ReceiveQuery F sq st liveData0 r =
     (case solax_RS485_Receive (rxMessage st) r of
        None \<Rightarrow> None
      | Some (error, rxm) \<Rightarrow>
          (let st1 = st\<lparr>rxMessage := rxm\<rparr> in
           if error = ERR_MINUS_1 then Some (ERR_MINUS_1, liveData0, st1)
           else
             (let liveData = LiveData_zero F in
              case sq of
                STATE_BROARDCAST \<Rightarrow>
                  if error = ERR_NO_DATA then Some (error, liveData, st1)
                  else if error = ERR_CRC_ERROR then Some (error, liveData, st1)
                  else if error = ERR_INVALID_MSG \<or> ControlCode rxm \<noteq> 0x10 \<or> FunctionCode rxm \<noteq> 0x80
                    then Some (error, liveData, st1)
                  else Some (error, liveData,
                         st1\<lparr>solax_InverterSerialNumber := map (Data rxm) [0..<14] @ [0]\<rparr>)
              | STATE_INVERTER_ADDRESS \<Rightarrow>
                  if error = ERR_NO_DATA then Some (error, liveData, st1)
                  else if error = ERR_CRC_ERROR then Some (error, liveData, st1)
                  else if error = ERR_INVALID_MSG \<or> ControlCode rxm \<noteq> 0x10 \<or> FunctionCode rxm \<noteq> 0x81
                          \<or> Data rxm 0 \<noteq> 0x06
                    then Some (error, liveData, st1)
                  else Some (error, liveData, st1)
              | STATE_QUERY_LIVE_DATA \<Rightarrow>
                  if error = ERR_NO_DATA then Some (error, liveData, st1)
                  else if error = ERR_CRC_ERROR then Some (error, liveData, st1)
                  else if error = ERR_INVALID_MSG \<or> ControlCode rxm \<noteq> 0x11 \<or> FunctionCode rxm \<noteq> 0x82
                    then Some (error, liveData, st1)
                  else Some (error, ReceiveQuery_LiveData F rxm liveData, st1))))"

text \<open>The sample a call of \<open>solax_ReceiveQuery\<close> leaves in \<open>*liveData\<close>.\<close>

definition received_sample ::
  "(Solax_ErrorQuery_t \<times> 'f Solax_LiveData_t \<times> solax_statics) option \<Rightarrow> 'f Solax_LiveData_t option" where
  "received_sample res = map_option (\<lambda>(error, liveData, st). liveData) res"

subsection \<open>Sending a query\<close>

text \<open>The three queries. \<open>arg_InverterAddr\<close> is an \<open>int\<close> stored into a \<open>uint8_t\<close>.
  Each gives what \<open>solax_RS485_Send\<close> gives.\<close>

definition solax_Send_Broardcast ::
  "(u8 list \<Rightarrow> int) \<Rightarrow> (u8 list \<times> u8 list \<times> Solax_ErrorQuery_t) option" where
  "solax_Send_Broardcast wr =
     solax_RS485_Send
       ((replicate sizeof_Solax_Message_t 0)
          [2 := 0x01, 3 := 0x00, 4 := 0x00, 5 := 0x00, 6 := 0x10, 7 := 0x00, 8 := 0x00]) wr"

text \<open>\<^verbatim>\<open>memcpy(txMessage.Data, solax_InverterSerialNumber, 14)\<close>.\<close>

definition memcpy_Data :: "u8 list \<Rightarrow> u8 list \<Rightarrow> nat \<Rightarrow> u8 list" where
  "memcpy_Data m src n = take 9 m @ take n src @ drop (9 + n) m"

definition solax_Send_InverterAddress ::
  "int \<Rightarrow> u8 list \<Rightarrow> (u8 list \<Rightarrow> int) \<Rightarrow> (u8 list \<times> u8 list \<times> Solax_ErrorQuery_t) option" where
  "solax_Send_InverterAddress arg_InverterAddr serial wr =
     solax_RS485_Send
       ((memcpy_Data
           ((replicate sizeof_Solax_Message_t 0)
              [2 := 0x00, 3 := 0x00, 4 := 0x00, 5 := 0x00, 6 := 0x10, 7 := 0x01, 8 := 0x0F])
           serial 14)
          [9 + 14 := word_of_int arg_InverterAddr]) wr"

definition solax_Send_QueryLiveData ::
  "int \<Rightarrow> (u8 list \<Rightarrow> int) \<Rightarrow> (u8 list \<times> u8 list \<times> Solax_ErrorQuery_t) option" where
  "solax_Send_QueryLiveData arg_InverterAddr wr =
     solax_RS485_Send
       ((replicate sizeof_Solax_Message_t 0)
          [2 := 0x01, 3 := 0x00, 4 := 0x00, 5 := word_of_int arg_InverterAddr,
           6 := 0x11, 7 := 0x02, 8 := 0x00]) wr"

definition solax_SendQuery ::
  "int \<Rightarrow> u8 list \<Rightarrow> Solax_StateQuery_t \<Rightarrow> (u8 list \<Rightarrow> int) \<Rightarrow>
   (u8 list \<times> u8 list \<times> Solax_ErrorQuery_t) option" where
  "solax_SendQuery arg_InverterAddr serial sq wr =
     (case sq of
        STATE_BROARDCAST \<Rightarrow> solax_Send_Broardcast wr
      | STATE_INVERTER_ADDRESS \<Rightarrow> solax_Send_InverterAddress arg_InverterAddr serial wr
      | STATE_QUERY_LIVE_DATA \<Rightarrow> solax_Send_QueryLiveData arg_InverterAddr wr)"

subsection \<open>The query state machine\<close>

text \<open>The \<open>switch (stateQuery)\<close> of \<open>solax_QueryHandle\<close>; \<open>if (errorRx)\<close> tests the
  return value of \<open>solax_ReceiveQuery\<close> against \<open>ERR_NONE = 0\<close>.\<close>

definition QueryHandle_switch :: "Solax_ErrorQuery_t \<Rightarrow> solax_statics \<Rightarrow> solax_statics" where
  "QueryHandle_switch errorRx st =
     (case stateQuery st of
        STATE_BROARDCAST \<Rightarrow>
          if errorRx \<noteq> ERR_NONE then
            (let st1 = st\<lparr>countError := countError st + 1\<rparr> in
             if countError st1 \<ge> 10
             then st1\<lparr>countError := 0, stateQuery := STATE_QUERY_LIVE_DATA\<rparr> else st1)
          else st\<lparr>countError := 0, stateQuery := STATE_INVERTER_ADDRESS\<rparr>
      | STATE_INVERTER_ADDRESS \<Rightarrow>
          if errorRx \<noteq> ERR_NONE then
            (let st1 = st\<lparr>countError := countError st + 1\<rparr> in
             if countError st1 \<ge> 3
             then st1\<lparr>countError := 0, stateQuery := STATE_BROARDCAST\<rparr> else st1)
          else st\<lparr>countError := 0, stateQuery := STATE_QUERY_LIVE_DATA\<rparr>
      | STATE_QUERY_LIVE_DATA \<Rightarrow>
          if errorRx \<noteq> ERR_NONE then
            (let st1 = st\<lparr>countError := countError st + 1\<rparr> in
             if countError st1 \<ge> 3
             then st1\<lparr>countError := 0, stateQuery := STATE_BROARDCAST\<rparr> else st1)
          else st\<lparr>timeoutInverterOnline := 0\<rparr>)"

text \<open>The update of \<open>solax_InverterOnline\<close> that follows the switch.\<close>

definition QueryHandle_online :: "solax_statics \<Rightarrow> solax_statics" where
  "QueryHandle_online st =
     (if solax_InverterOnline st then
        (let st1 = st\<lparr>timeoutInverterOnline := timeoutInverterOnline st + 1\<rparr> in
         if timeoutInverterOnline st1 \<ge> TIMEOUT_INVERTER_ONLINE
         then st1\<lparr>solax_InverterOnline := False\<rparr> else st1)
      else
        (if timeoutInverterOnline st = 0 then st\<lparr>solax_InverterOnline := True\<rparr> else st))"

text \<open>\<open>solax_QueryHandle\<close>: the return value (\<open>ERR_MINUS_1\<close> for \<open>-1\<close>), the sample,
  the static data and the bytes handed to \<open>write\<close> (none when it returns before sending).\<close>

definition solax_QueryHandle ::
  "'f float_ops \<Rightarrow> int \<Rightarrow> solax_statics \<Rightarrow> 'f Solax_LiveData_t \<Rightarrow> u8 list option \<Rightarrow> (u8 list \<Rightarrow> int) \<Rightarrow>
   (Solax_ErrorQuery_t \<times> 'f Solax_LiveData_t \<times> solax_statics \<times> u8 list) option" where
  "solax_QueryHandle F arg_InverterAddr st liveData0 r wr =
     (case solax_ReceiveQuery F (stateQuery st) st liveData0 r of
        None \<Rightarrow> None
      | Some (errorRx, liveData, st1) \<Rightarrow>
          if errorRx = ERR_MINUS_1 then Some (ERR_MINUS_1, liveData, st1, [])
          else
            (let st2 = QueryHandle_switch errorRx st1;
                 st3 = QueryHandle_online st2
             in case solax_SendQuery arg_InverterAddr (solax_InverterSerialNumber st3) (stateQuery st3) wr of
                  None \<Rightarrow> None
                | Some (txm, frame, errorTx) \<Rightarrow>
                    if errorTx = ERR_MINUS_1 then Some (ERR_MINUS_1, liveData, st3, frame)
                    else Some (errorRx, liveData, st3, frame)))"

text \<open>What one call of \<open>solax_QueryHandle\<close> does to its static variables and to
  \<open>solax_InverterOnline\<close>, given the return value of \<open>solax_ReceiveQuery\<close>: the switch,
  then the update of the online flag.\<close>

definition QueryHandle_tick :: "Solax_ErrorQuery_t \<Rightarrow> solax_statics \<Rightarrow> solax_statics" where
  "QueryHandle_tick errorRx st = QueryHandle_online (QueryHandle_switch errorRx st)"

text \<open>The static data a call of \<open>solax_QueryHandle\<close> leaves.\<close>

definition QueryHandle_statics ::
  "(Solax_ErrorQuery_t \<times> 'f Solax_LiveData_t \<times> solax_statics \<times> u8 list) option \<Rightarrow> solax_statics option" where
  "QueryHandle_statics res = map_option (\<lambda>(error, liveData, st, frame). st) res"

subsection \<open>The windowed average\<close>

text \<open>The body of the loop of \<open>solax_LiveData_Average\<close> for a valid sample \<open>s\<close>:
  the assignments to the global \<open>solax_LiveData\<close>, here \<open>acc\<close>.\<close>

definition Average_accumulate ::
  "'f float_ops \<Rightarrow> 'f Solax_LiveData_t \<Rightarrow> 'f Solax_LiveData_t \<Rightarrow> 'f Solax_LiveData_t" where
  "Average_accumulate F acc s =
     acc\<lparr>Temperature := flt_add F (Temperature acc) (Temperature s),
         DC1_Voltage := flt_add F (DC1_Voltage acc) (DC1_Voltage s),
         DC2_Voltage := flt_add F (DC2_Voltage acc) (DC2_Voltage s),
         DC1_Current := flt_add F (DC1_Current acc) (DC1_Current s),
         DC2_Current := flt_add F (DC2_Current acc) (DC2_Current s),
         AC_Current := flt_add F (AC_Current acc) (AC_Current s),
         AC_Voltage := flt_add F (AC_Voltage acc) (AC_Voltage s),
         Frequency := flt_add F (Frequency acc) (Frequency s),
         Power := flt_add F (Power acc) (Power s),
         ErrorBits := ErrorBits acc OR ErrorBits s,
         Energy_Today := (if flt_less F (Energy_Today acc) (Energy_Today s)
                          then Energy_Today s else Energy_Today acc),
         Energy_Total := (if flt_less F (Energy_Total acc) (Energy_Total s)
                          then Energy_Total s else Energy_Total acc),
         Runtime_Total := (if flt_less F (Runtime_Total acc) (Runtime_Total s)
                           then Runtime_Total s else Runtime_Total acc),
         Status := (if Status acc < Status s then Status s else Status acc)\<rparr>"

text \<open>
  \<^verbatim>\<open>for (i = 0; i <= arg_AV_Samples; i++)\<close> with \<open>uint8_t i, idx, cnt\<close> and
  \<open>int arg_AV_Samples\<close>: \<open>i\<close> wraps at 256, so the loop does not end when
  \<open>arg_AV_Samples\<close> is 255 or more. \<open>continue\<close> goes to \<open>i++\<close>.
\<close>

partial_function (option) Average_loop ::
  "'f float_ops \<Rightarrow> int \<Rightarrow> 'f Solax_LiveData_t list \<Rightarrow> u8 \<Rightarrow> u8 \<Rightarrow> u8 \<Rightarrow> u8 \<Rightarrow> 'f Solax_LiveData_t \<Rightarrow>
   (u8 \<times> 'f Solax_LiveData_t) option" where
  "Average_loop F arg_AV_Samples liveData max_idx i idx cnt acc =
     (if uint i \<le> arg_AV_Samples then
        (if unat idx < length liveData then
           (if \<not> valid (liveData ! unat idx)
            then Average_loop F arg_AV_Samples liveData max_idx (i + 1) idx cnt acc
            else Average_loop F arg_AV_Samples liveData max_idx (i + 1)
                   (if idx \<noteq> 0 then idx - 1 else max_idx) (cnt + 1)
                   (Average_accumulate F acc (liveData ! unat idx)))
         else None)
      else Some (cnt, acc))"

declare Average_loop.simps [code]

text \<open>The divisions under \<open>if (cnt)\<close>.\<close>

definition Average_divide :: "'f float_ops \<Rightarrow> u8 \<Rightarrow> 'f Solax_LiveData_t \<Rightarrow> 'f Solax_LiveData_t" where
  "Average_divide F cnt acc =
     (if cnt \<noteq> 0 then
        acc\<lparr>Temperature := flt_div F (Temperature acc) (flt_of_int F (uint cnt)),
            DC1_Voltage := flt_div F (DC1_Voltage acc) (flt_of_int F (uint cnt)),
            DC2_Voltage := flt_div F (DC2_Voltage acc) (flt_of_int F (uint cnt)),
            DC1_Current := flt_div F (DC1_Current acc) (flt_of_int F (uint cnt)),
            DC2_Current := flt_div F (DC2_Current acc) (flt_of_int F (uint cnt)),
            AC_Current := flt_div F (AC_Current acc) (flt_of_int F (uint cnt)),
            AC_Voltage := flt_div F (AC_Voltage acc) (flt_of_int F (uint cnt)),
            Frequency := flt_div F (Frequency acc) (flt_of_int F (uint cnt)),
            Power := flt_div F (Power acc) (flt_of_int F (uint cnt))\<rparr>
      else acc)"

text \<open>\<^verbatim>\<open>for (idx = 0; idx <= max_idx; idx++) qos += liveData[idx].valid;\<close>\<close>

partial_function (option) QoS_loop ::
  "'f Solax_LiveData_t list \<Rightarrow> u8 \<Rightarrow> u8 \<Rightarrow> u8 \<Rightarrow> u8 option" where
  "QoS_loop liveData max_idx idx qos =
     (if idx \<le> max_idx then
        (if unat idx < length liveData
         then QoS_loop liveData max_idx (idx + 1)
                (qos + (if valid (liveData ! unat idx) then 1 else 0))
         else None)
      else Some qos)"

declare QoS_loop.simps [code]

text \<open>\<open>solax_LiveData_Average\<close>: the globals \<open>solax_LiveData\<close> and
  \<open>solax_QualityOfService\<close> after the call.\<close>

definition solax_LiveData_Average ::
  "'f float_ops \<Rightarrow> int \<Rightarrow> 'f Solax_LiveData_t list \<Rightarrow> u8 \<Rightarrow> u8 \<Rightarrow> ('f Solax_LiveData_t \<times> 'f) option" where
  "solax_LiveData_Average F arg_AV_Samples liveData idx max_idx =
     (case Average_loop F arg_AV_Samples liveData max_idx 0 idx 0 (LiveData_zero F) of
        None \<Rightarrow> None
      | Some (cnt, acc) \<Rightarrow>
          (case QoS_loop liveData max_idx 0 0 of
             None \<Rightarrow> None
           | Some qos \<Rightarrow>
               Some (Average_divide F cnt acc,
                     flt_div F (flt_of_int F (uint qos)) (flt_of_int F (uint max_idx + 1)))))"

subsection \<open>The windowed average as the specification words it\<close>

text \<open>
  The walk of section 4.4 of the specification, written from its words with unbounded
  counters: a pointer, a counter of valid samples and the accumulated sample. It is
  compared with \<open>solax_LiveData_Average\<close> below.
\<close>

record 'f walk =
  walk_ptr :: nat
  walk_count :: nat
  walk_acc :: "'f Solax_LiveData_t"

definition flt_max :: "'f float_ops \<Rightarrow> 'f \<Rightarrow> 'f \<Rightarrow> 'f" where
  "flt_max F a b = (if flt_less F a b then b else a)"

definition spec_accumulate ::
  "'f float_ops \<Rightarrow> 'f Solax_LiveData_t \<Rightarrow> 'f Solax_LiveData_t \<Rightarrow> 'f Solax_LiveData_t" where
  "spec_accumulate F acc s =
     \<lparr>valid = valid acc,
      Temperature = flt_add F (Temperature acc) (Temperature s),
      Energy_Today = flt_max F (Energy_Today acc) (Energy_Today s),
      DC1_Voltage = flt_add F (DC1_Voltage acc) (DC1_Voltage s),
      DC2_Voltage = flt_add F (DC2_Voltage acc) (DC2_Voltage s),
      DC1_Current = flt_add F (DC1_Current acc) (DC1_Current s),
      DC2_Current = flt_add F (DC2_Current acc) (DC2_Current s),
      AC_Current = flt_add F (AC_Current acc) (AC_Current s),
      AC_Voltage = flt_add F (AC_Voltage acc) (AC_Voltage s),
      Frequency = flt_add F (Frequency acc) (Frequency s),
      Power = flt_add F (Power acc) (Power s),
      Energy_Total = flt_max F (Energy_Total acc) (Energy_Total s),
      Runtime_Total = flt_max F (Runtime_Total acc) (Runtime_Total s),
      Status = max (Status acc) (Status s),
      ErrorBits = ErrorBits acc OR ErrorBits s\<rparr>"

definition spec_step :: "'f float_ops \<Rightarrow> 'f Solax_LiveData_t list \<Rightarrow> nat \<Rightarrow> 'f walk \<Rightarrow> 'f walk" where
  "spec_step F liveData max_idx w =
     (if valid (liveData ! walk_ptr w) then
        \<lparr>walk_ptr = (if walk_ptr w = 0 then max_idx else walk_ptr w - 1),
         walk_count = walk_count w + 1,
         walk_acc = spec_accumulate F (walk_acc w) (liveData ! walk_ptr w)\<rparr>
      else w)"

definition spec_walk :: "'f float_ops \<Rightarrow> nat \<Rightarrow> 'f Solax_LiveData_t list \<Rightarrow> nat \<Rightarrow> nat \<Rightarrow> 'f walk" where
  "spec_walk F steps liveData idx max_idx =
     (spec_step F liveData max_idx ^^ steps)
       \<lparr>walk_ptr = idx, walk_count = 0, walk_acc = LiveData_zero F\<rparr>"

definition spec_divide :: "'f float_ops \<Rightarrow> nat \<Rightarrow> 'f Solax_LiveData_t \<Rightarrow> 'f Solax_LiveData_t" where
  "spec_divide F n acc =
     (if n = 0 then acc
      else acc\<lparr>Temperature := flt_div F (Temperature acc) (flt_of_int F (int n)),
               DC1_Voltage := flt_div F (DC1_Voltage acc) (flt_of_int F (int n)),
               DC2_Voltage := flt_div F (DC2_Voltage acc) (flt_of_int F (int n)),
               DC1_Current := flt_div F (DC1_Current acc) (flt_of_int F (int n)),
               DC2_Current := flt_div F (DC2_Current acc) (flt_of_int F (int n)),
               AC_Current := flt_div F (AC_Current acc) (flt_of_int F (int n)),
               AC_Voltage := flt_div F (AC_Voltage acc) (flt_of_int F (int n)),
               Frequency := flt_div F (Frequency acc) (flt_of_int F (int n)),
               Power := flt_div F (Power acc) (flt_of_int F (int n))\<rparr>)"

definition spec_average ::
  "'f float_ops \<Rightarrow> int \<Rightarrow> 'f Solax_LiveData_t list \<Rightarrow> nat \<Rightarrow> nat \<Rightarrow> 'f Solax_LiveData_t" where
  "spec_average F W liveData idx max_idx =
     (let w = spec_walk F (nat (W + 1)) liveData idx max_idx
      in spec_divide F (walk_count w) (walk_acc w))"

subsection \<open>The main loop\<close>

definition MAX_INDEX_OF_LIVE_DATA :: u8 where
  "MAX_INDEX_OF_LIVE_DATA = 99"

text \<open>
  The variables of \<open>main\<close> and the globals one pass of its \<open>while (1)\<close> loop changes.
  \<open>poll_HTTP_Server\<close> and \<open>sleep\<close> only read this state and are left out.
\<close>

record 'f main_state =
  statics :: solax_statics
  main_index :: u8
  main_liveData :: "'f Solax_LiveData_t list"
  solax_LiveData :: "'f Solax_LiveData_t"
  solax_QualityOfService :: 'f


text \<open>A pass either leaves \<open>main\<close> (\<open>return errno\<close>) or goes on to the next pass.\<close>

datatype 's pass = Returned 's | Next_pass 's

definition main_pass ::
  "'f float_ops \<Rightarrow> int \<Rightarrow> int \<Rightarrow> 'f main_state \<Rightarrow> u8 list option \<Rightarrow> (u8 list \<Rightarrow> int) \<Rightarrow>
   'f main_state pass option" where
  "main_pass F arg_AV_Samples arg_InverterAddr ms r wr =
     (if \<not> unat (main_index ms) < length (main_liveData ms) then None
      else
        case solax_QueryHandle F arg_InverterAddr (statics ms)
               (main_liveData ms ! unat (main_index ms)) r wr of
          None \<Rightarrow> None
        | Some (error, sample, st, frame) \<Rightarrow>
            (let ms1 = ms\<lparr>statics := st,
                           main_liveData := (main_liveData ms)[unat (main_index ms) := sample]\<rparr>
             in if error = ERR_MINUS_1 then Some (Returned ms1)
                else
                  (case solax_LiveData_Average F arg_AV_Samples (main_liveData ms1)
                          (main_index ms1) MAX_INDEX_OF_LIVE_DATA of
                     None \<Rightarrow> None
                   | Some (avg, qos) \<Rightarrow>
                       (let i = main_index ms1 + 1
                        in Some (Next_pass
                             (ms1\<lparr>solax_LiveData := avg, solax_QualityOfService := qos,
                                   main_index := (if i > MAX_INDEX_OF_LIVE_DATA then 0 else i)\<rparr>))))))"

text \<open>The first passes of the loop, one per element of the list: what \<open>read\<close> delivers
  in that pass and how \<open>write\<close> answers.\<close>

fun main_loop ::
  "'f float_ops \<Rightarrow> int \<Rightarrow> int \<Rightarrow> 'f main_state \<Rightarrow> (u8 list option \<times> (u8 list \<Rightarrow> int)) list \<Rightarrow>
   'f main_state pass option" where
  "main_loop F arg_AV_Samples arg_InverterAddr ms [] = Some (Next_pass ms)"
| "main_loop F arg_AV_Samples arg_InverterAddr ms ((r, wr) # ios) =
     (case main_pass F arg_AV_Samples arg_InverterAddr ms r wr of
        None \<Rightarrow> None
      | Some (Returned ms1) \<Rightarrow> Some (Returned ms1)
      | Some (Next_pass ms1) \<Rightarrow> main_loop F arg_AV_Samples arg_InverterAddr ms1 ios)"

text \<open>A \<open>write\<close> that accepts every byte handed to it.\<close>

definition write_all :: "u8 list \<Rightarrow> int" where
  "write_all bs = int (length bs)"

text \<open>A \<open>write\<close> that fails: it returns \<open>-1\<close> whatever it is handed.\<close>

definition write_fails :: "u8 list \<Rightarrow> int" where
  "write_fails bs = - 1"

text \<open>
  The successive calls of \<open>solax_QueryHandle\<close> that the loop of \<open>main\<close> makes, one per
  element of the list (what \<open>read\<close> delivers in that pass), every \<open>write\<close> succeeding:
  the static data after the last call. The loop ends at a return value \<open>-1\<close>.
\<close>

fun QueryHandle_calls ::
  "'f float_ops \<Rightarrow> int \<Rightarrow> solax_statics \<Rightarrow> u8 list option list \<Rightarrow> solax_statics option" where
  "QueryHandle_calls F arg_InverterAddr st [] = Some st"
| "QueryHandle_calls F arg_InverterAddr st (r # rs) =
     (case solax_QueryHandle F arg_InverterAddr st (LiveData_zero F) r write_all of
        None \<Rightarrow> None
      | Some (error, liveData, st1, frame) \<Rightarrow>
          if error = ERR_MINUS_1 then Some st1
          else QueryHandle_calls F arg_InverterAddr st1 rs)"

section \<open>Properties\<close>

subsection \<open>The checksum loop in closed form\<close>


lemma sum16_Nil: "sum16 [] = 0"
  by (simp add: sum16_def)

lemma sum16_Cons: "sum16 (x # xs) = ucast x + sum16 xs"
  by (simp add: sum16_def)

lemma unat_u8_Suc: "unat (i :: u8) < 255 \<Longrightarrow> unat (i + 1) = Suc (unat i)"
  by (simp add: unat_word_ariths)

lemma CalculateCRC_loop_sum:
  "unat dataLen < length data \<Longrightarrow> unat dataLen < 255 \<Longrightarrow> unat dataLen + 1 - unat i = n \<Longrightarrow>
   unat i \<le> unat dataLen + 1 \<Longrightarrow>
   CalculateCRC_loop data dataLen i chkSum =
     Some (chkSum + sum16 (take n (drop (unat i) data)))"
proof (induction n arbitrary: i chkSum)
  case 0
  then have "\<not> i \<le> dataLen" by (simp add: word_le_nat_alt)
  then show ?case by (subst CalculateCRC_loop.simps) (simp add: sum16_Nil)
next
  case (Suc n)
  then have le: "i \<le> dataLen" and lt: "unat i < length data" and i255: "unat i < 255"
    by (simp_all add: word_le_nat_alt)
  have step: "unat (i + 1) = Suc (unat i)" using i255 by (rule unat_u8_Suc)
  have "CalculateCRC_loop data dataLen (i + 1) (chkSum + ucast (data ! unat i)) =
        Some (chkSum + ucast (data ! unat i) + sum16 (take n (drop (unat (i + 1)) data)))"
    using Suc.prems by (intro Suc.IH) (simp_all add: step)
  moreover have "take (Suc n) (drop (unat i) data) = data ! unat i # take n (drop (Suc (unat i)) data)"
    using lt by (simp add: Cons_nth_drop_Suc [symmetric])
  ultimately show ?case using le lt
    by (subst CalculateCRC_loop.simps) (simp add: step sum16_Cons)
qed

lemma CalculateCRC_loop_outside:
  "length data \<le> unat dataLen \<Longrightarrow> length data - unat i = n \<Longrightarrow> unat i \<le> length data \<Longrightarrow>
   CalculateCRC_loop data dataLen i chkSum = None"
proof (induction n arbitrary: i chkSum)
  case 0
  then have "i \<le> dataLen" "\<not> unat i < length data" by (simp_all add: word_le_nat_alt)
  then show ?case by (subst CalculateCRC_loop.simps) simp
next
  case (Suc n)
  have "unat dataLen < 256" using unsigned_less [of dataLen, where ?'a = nat] by simp
  with Suc.prems have le: "i \<le> dataLen" and lt: "unat i < length data" and i255: "unat i < 255"
    by (simp_all add: word_le_nat_alt)
  have step: "unat (i + 1) = Suc (unat i)" using i255 by (rule unat_u8_Suc)
  have "CalculateCRC_loop data dataLen (i + 1) (chkSum + ucast (data ! unat i)) = None"
    using Suc.prems lt by (intro Suc.IH) (simp_all add: step)
  then show ?case using le lt
    by (subst CalculateCRC_loop.simps) simp
qed

lemma solax_CalculateCRC_sum:
  "unat dataLen < length data \<Longrightarrow> unat dataLen < 255 \<Longrightarrow>
   solax_CalculateCRC data dataLen = Some (sum16 (take (unat dataLen + 1) data))"
  unfolding solax_CalculateCRC_def
  by (subst CalculateCRC_loop_sum [where n = "unat dataLen + 1"]) simp_all

lemma solax_CalculateCRC_outside:
  "length data \<le> unat dataLen \<Longrightarrow> solax_CalculateCRC data dataLen = None"
  unfolding solax_CalculateCRC_def
  by (rule CalculateCRC_loop_outside [where n = "length data"]) simp_all

lemma unat_sum16: "unat (sum16 bs) = sum_list (map unat bs) mod 65536"
  by (simp add: sum16_def unat_of_nat)




lemma unat_highByte_lowByte: "unat (highByte c) * 256 + unat (lowByte c) = unat c"
proof -
  have "unat c < 65536" using unsigned_less [of c, where ?'a = nat] by simp
  then have "unat c div 256 mod 256 * 256 + unat c mod 256 = unat c"
    by simp
  then show ?thesis
    unfolding highByte_def lowByte_def
    by (simp add: unsigned_ucast_eq unsigned_drop_bit_eq take_bit_eq_mod drop_bit_eq_div unat_div)
qed



lemma take_update2:
  "k + 2 \<le> length xs \<Longrightarrow> take (k + 2) (xs[k := a, Suc k := b]) = take k xs @ [a, b]"
  by (auto simp add: list_eq_iff_nth_eq nth_append nth_list_update less_Suc_eq)




lemma DataLength_marker: "DataLength (m[0 := a, Suc 0 := b]) = DataLength m"
  by (simp add: DataLength_def)

lemma solax_RS485_Send_frame:
  assumes len: "length txMessage = 109" and dl: "unat (DataLength txMessage) \<le> 98"
  defines "n \<equiv> unat (DataLength txMessage)"
  defines "m2 \<equiv> txMessage[0 := 0xAA, 1 := 0x55]"
  defines "crc \<equiv> sum16 (take (9 + n) m2)"
  shows "solax_RS485_Send txMessage wr =
           Some (m2[9 + n := highByte crc, 10 + n := lowByte crc],
                 take (9 + n) m2 @ [highByte crc, lowByte crc],
                 if wr (take (9 + n) m2 @ [highByte crc, lowByte crc]) \<noteq> int (11 + n)
                 then ERR_MINUS_1 else ERR_NONE)"
proof -
  have dl2: "DataLength m2 = DataLength txMessage"
    by (simp add: m2_def DataLength_def)
  have u9: "unat (DataLength txMessage + 9) = n + 9"
    using dl by (simp add: n_def unat_word_ariths)
  have u8: "unat (DataLength txMessage + 8) = n + 8"
    using dl by (simp add: n_def unat_word_ariths)
  have u11: "unat (DataLength txMessage + 11) = n + 11"
    using dl by (simp add: n_def unat_word_ariths)
  have n98: "n \<le> 98" using dl by (simp add: n_def)
  have lm2: "length m2 = 109" by (simp add: m2_def len)
  have crc: "solax_CalculateCRC m2 (DataLength txMessage + 8) = Some crc"
    using n98 lm2 solax_CalculateCRC_sum [of "DataLength txMessage + 8" m2]
    by (simp add: u8 crc_def add.commute)
  have crc': "solax_CalculateCRC m2 (8 + DataLength txMessage) = Some crc"
    using crc by (simp only: add.commute)
  have u11': "unat (11 + DataLength txMessage) = n + 11"
    using u11 by (simp only: add.commute)
  have dl3: "DataLength (m2[9 + n := x]) = DataLength txMessage" for x
    using dl2 by (simp add: DataLength_def)
  have tk: "take (n + 11) (m2[9 + n := highByte crc, 10 + n := lowByte crc]) =
            take (9 + n) m2 @ [highByte crc, lowByte crc]"
    using take_update2 [of "9 + n" m2 "highByte crc" "lowByte crc"] n98 lm2
    by (simp add: add.commute)
  show ?thesis
    apply (simp only: solax_RS485_Send_def Let_def)
    apply (fold m2_def)
    using n98 lm2
    apply (simp add: dl2 dl3 crc crc' Data_write_def n_def [symmetric] u11 u11' tk)
    done
qed




lemma solax_RS485_Send_oversize:
  "98 < unat (DataLength txMessage) \<Longrightarrow> solax_RS485_Send txMessage wr = None"
  by (auto simp add: solax_RS485_Send_def Let_def Data_write_def DataLength_def
      split: option.splits)




lemma read_tty_Some:
  "length bs \<le> 109 \<Longrightarrow>
   read_tty rxMessage0 (Some bs) = (bs @ drop (length bs) rxMessage0, int (length bs))"
  by (simp add: read_tty_def sizeof_Solax_Message_t_def min_def Let_def)

lemma solax_RS485_Receive_frame:
  assumes len0: "length rxMessage0 = 109"
    and len: "11 \<le> length bs" "length bs \<le> 109"
    and marker: "bs ! 0 = 0xAA" "bs ! 1 = 0x55"
    and fits: "unat (bs ! 8) + 11 \<le> length bs"
  defines "n \<equiv> unat (bs ! 8)"
  defines "crc \<equiv> sum16 (take (9 + n) bs)"
  shows "solax_RS485_Receive rxMessage0 (Some bs) =
           Some (if bs ! (9 + n) = highByte crc \<and> bs ! (10 + n) = lowByte crc
                 then ERR_NONE else ERR_CRC_ERROR,
                 bs @ drop (length bs) rxMessage0)"
proof -
  define rx where "rx = bs @ drop (length bs) rxMessage0"
  have rd: "read_tty rxMessage0 (Some bs) = (rx, int (length bs))"
    using len by (simp add: read_tty_Some rx_def)
  have nth: "rx ! k = bs ! k" if "k < length bs" for k
    using that by (simp add: rx_def nth_append)
  have lrx: "length rx = 109" using len len0 by (simp add: rx_def)
  have n98: "n \<le> 98" using fits len by (simp add: n_def)
  have dl: "DataLength rx = bs ! 8" using len nth [of 8] by (simp add: DataLength_def)
  have un9: "unat (bs ! 8 + 9) = n + 9"
    using n98 by (simp add: n_def unat_word_ariths)
  have un8: "unat (bs ! 8 + 8) = n + 8"
    using n98 by (simp add: n_def unat_word_ariths)
  have c1: "\<not> int (length bs) < 0" by simp
  have c2: "int (length bs) \<noteq> 0" using len by auto
  have c3: "\<not> (int (length bs) < 11 \<or> Header0 rx \<noteq> 0xAA \<or> Header1 rx \<noteq> 0x55)"
  proof -
    have "rx ! 0 = bs ! 0" "rx ! 1 = bs ! 1" using len by (auto intro: nth)
    then show ?thesis using marker len by (simp add: Header0_def Header1_def)
  qed
  have "uint (bs ! 8 + 9) = int (n + 9)"
    using un9 by (simp only: uint_nat)
  then have c4: "\<not> int (length bs) < uint (DataLength rx + 9) + 2"
    using fits unfolding dl n_def [symmetric] by linarith
  have e: "DataLength rx + 9 - 1 = bs ! 8 + 8" by (simp add: dl)
  have tk: "take (unat (bs ! 8 + 8) + 1) rx = take (9 + n) bs"
    using fits by (simp add: un8 rx_def n_def)
  have "solax_CalculateCRC rx (bs ! 8 + 8) = Some (sum16 (take (unat (bs ! 8 + 8) + 1) rx))"
    using n98 by (intro solax_CalculateCRC_sum) (simp_all add: un8 lrx)
  then have crc: "solax_CalculateCRC rx (DataLength rx + 9 - 1) = Some crc"
    unfolding e tk crc_def .
  have r0: "Data_read rx (unat (DataLength rx) + 0) = Some (bs ! (9 + n))"
    using fits n98 by (simp add: Data_read_def Data_def dl n_def [symmetric] nth)
  have r1: "Data_read rx (unat (DataLength rx) + 1) = Some (bs ! (10 + n))"
    using fits n98 by (simp add: Data_read_def Data_def dl n_def [symmetric] nth)
  show ?thesis
    unfolding solax_RS485_Receive_def rd Let_def prod.case
    by (simp only: if_not_P [OF c1] if_not_P [OF c2] if_not_P [OF c3] if_not_P [OF c4]
          crc r0 r1 option.case rx_def [symmetric]) simp
qed

lemma solax_RS485_Receive_short:
  "0 < length bs \<Longrightarrow> length bs < 11 \<Longrightarrow>
   solax_RS485_Receive rxMessage0 (Some bs) = Some (ERR_INVALID_MSG, bs @ drop (length bs) rxMessage0)"
  by (simp add: solax_RS485_Receive_def read_tty_def sizeof_Solax_Message_t_def Let_def min_def)




lemma solax_RS485_Receive_empty:
  "solax_RS485_Receive rxMessage0 (Some []) = Some (ERR_NO_DATA, rxMessage0)"
  by (simp add: solax_RS485_Receive_def read_tty_def sizeof_Solax_Message_t_def Let_def)




lemma solax_RS485_Receive_length:
  assumes len: "11 \<le> length bs" "length bs \<le> 109"
    and nowrap: "unat (bs ! 8) < 247"
    and long: "length bs < unat (bs ! 8) + 11"
  shows "solax_RS485_Receive rxMessage0 (Some bs) =
           Some (ERR_INVALID_MSG, bs @ drop (length bs) rxMessage0)"
proof -
  define rx where "rx = bs @ drop (length bs) rxMessage0"
  have rd: "read_tty rxMessage0 (Some bs) = (rx, int (length bs))"
    using len by (simp add: read_tty_Some rx_def)
  have dl: "DataLength rx = bs ! 8"
    using len by (simp add: DataLength_def rx_def nth_append)
  have "unat (bs ! 8 + 9) = unat (bs ! 8) + 9"
    using nowrap by (simp add: unat_word_ariths)
  then have u9: "uint (bs ! 8 + 9) = uint (bs ! 8) + 9"
    by (simp only: uint_nat of_nat_add of_nat_numeral)
  have ne: "bs \<noteq> []" using len by auto
  have long': "int (length bs) < uint (bs ! 8) + 11"
    using long unfolding uint_nat by linarith
  show ?thesis
    apply (simp only: solax_RS485_Receive_def rd Let_def split)
    apply (fold rx_def)
    using len long'
    apply (simp add: dl u9 ne)
    done
qed





lemma solax_RS485_Receive_marker:
  assumes len: "11 \<le> length bs" "length bs \<le> 109"
    and marker: "bs ! 0 \<noteq> 0xAA \<or> bs ! 1 \<noteq> 0x55"
  shows "solax_RS485_Receive rxMessage0 (Some bs) =
           Some (ERR_INVALID_MSG, bs @ drop (length bs) rxMessage0)"
proof -
  define rx where "rx = bs @ drop (length bs) rxMessage0"
  have rd: "read_tty rxMessage0 (Some bs) = (rx, int (length bs))"
    using len by (simp add: read_tty_Some rx_def)
  have nth: "rx ! k = bs ! k" if "k < length bs" for k
    using that by (simp add: rx_def nth_append)
  have "rx ! 0 = bs ! 0" "rx ! 1 = bs ! 1" using len by (auto intro: nth)
  then have c3: "int (length bs) < 11 \<or> Header0 rx \<noteq> 0xAA \<or> Header1 rx \<noteq> 0x55"
    using marker by (simp add: Header0_def Header1_def)
  have c1: "\<not> int (length bs) < 0" by simp
  have c2: "int (length bs) \<noteq> 0" using len by auto
  show ?thesis
    unfolding solax_RS485_Receive_def rd Let_def prod.case
    by (simp only: if_not_P [OF c1] if_not_P [OF c2] if_P [OF c3] rx_def [symmetric])
qed

lemma solax_RS485_Receive_wrap_outside:
  assumes len0: "length rxMessage0 = 109"
    and len: "11 \<le> length bs" "length bs \<le> 109"
    and marker: "bs ! 0 = 0xAA" "bs ! 1 = 0x55"
    and wrap: "247 \<le> unat (bs ! 8)"
  shows "solax_RS485_Receive rxMessage0 (Some bs) = None"
proof -
  define rx where "rx = bs @ drop (length bs) rxMessage0"
  have rd: "read_tty rxMessage0 (Some bs) = (rx, int (length bs))"
    using len by (simp add: read_tty_Some rx_def)
  have nth: "rx ! k = bs ! k" if "k < length bs" for k
    using that by (simp add: rx_def nth_append)
  have lrx: "length rx = 109" using len len0 by (simp add: rx_def)
  have dl: "DataLength rx = bs ! 8" using len nth [of 8] by (simp add: DataLength_def)
  have c1: "\<not> int (length bs) < 0" by simp
  have c2: "int (length bs) \<noteq> 0" using len by auto
  have c3: "\<not> (int (length bs) < 11 \<or> Header0 rx \<noteq> 0xAA \<or> Header1 rx \<noteq> 0x55)"
  proof -
    have "rx ! 0 = bs ! 0" "rx ! 1 = bs ! 1" using len by (auto intro: nth)
    then show ?thesis using marker len by (simp add: Header0_def Header1_def)
  qed
  have lt: "unat (bs ! 8) < 256" using unsigned_less [of "bs ! 8", where ?'a = nat] by simp
  have "unat (bs ! 8) + 9 = 256 + (unat (bs ! 8) - 247)" using wrap by linarith
  then have "(unat (bs ! 8) + 9) mod 256 = (256 + (unat (bs ! 8) - 247)) mod 256"
    by (simp only:)
  also have "\<dots> = unat (bs ! 8) - 247" using lt by simp
  finally have un9: "unat (bs ! 8 + 9) = unat (bs ! 8) - 247"
    by (simp add: unat_word_ariths)
  then have "uint (bs ! 8 + 9) = int (unat (bs ! 8) - 247)"
    by (simp only: uint_nat)
  then have c4: "\<not> int (length bs) < uint (DataLength rx + 9) + 2"
    using len lt wrap unfolding dl by linarith
  have r0: "Data_read rx (unat (DataLength rx) + 0) = None"
    using wrap by (simp add: Data_read_def dl)
  show ?thesis
    unfolding solax_RS485_Receive_def rd Let_def prod.case
    by (simp only: if_not_P [OF c1] if_not_P [OF c2] if_not_P [OF c3] if_not_P [OF c4] r0)
       (simp split: option.split)
qed




lemma take_marker_tx_body:
  assumes "length txMessage = 109"
  shows "take (9 + unat (DataLength txMessage)) (txMessage[0 := 0xAA, 1 := 0x55]) = tx_body txMessage"
proof -
  obtain a b rest where tx: "txMessage = a # b # rest"
    using assms by (cases txMessage; cases "tl txMessage") auto
  have "take (7 + n) rest = take 7 rest @ take n (drop 7 rest)" for n
    by (simp add: take_add)
  moreover have "take (9 + n) (x # y # rest) = x # y # take (7 + n) rest" for n x y
    by (simp add: take_Cons')
  ultimately show ?thesis
    by (simp add: tx tx_body_def DataLength_def)
qed

subsection \<open>The claims about the frame codec\<close>

text \<open>
  C1. The frame checksum is the unsigned 16-bit sum, modulo 65536, of every byte of the
  frame from the marker \<open>0xAA 0x55\<close> through the last payload byte, and it is stored
  high byte first as the two trailing bytes: \<open>solax_CalculateCRC\<close> computes that sum,
  \<open>solax_RS485_Send\<close> appends its two bytes to marker, header and payload, and
  \<open>solax_RS485_Receive\<close> accepts a frame exactly when its two trailing bytes are those
  of the sum. For the 23 bytes of \<open>rx_msg_1\<close> before its checksum the sum is \<open>0x0575\<close>,
  the trailing bytes \<open>0x05 0x75\<close>.
\<close>

theorem C1_additive_checksum:
  "(unat dataLen < length data \<and> unat dataLen < 255 \<longrightarrow>
      solax_CalculateCRC data dataLen = Some (sum16 (take (unat dataLen + 1) data))) \<and>
   unat (sum16 body) = sum_list (map unat body) mod 65536 \<and>
   unat (highByte c) * 256 + unat (lowByte c) = unat c \<and>
   (length txMessage = 109 \<and> unat (DataLength txMessage) \<le> 98 \<longrightarrow>
      tx_frame txMessage =
        Some (tx_body txMessage @
              [highByte (sum16 (tx_body txMessage)), lowByte (sum16 (tx_body txMessage))])) \<and>
   (length rxMessage0 = 109 \<and> 11 \<le> length bs \<and> length bs \<le> 109 \<and>
    bs ! 0 = 0xAA \<and> bs ! 1 = 0x55 \<and> unat (bs ! 8) + 11 \<le> length bs \<longrightarrow>
      (solax_RS485_Receive rxMessage0 (Some bs) = Some (ERR_NONE, bs @ drop (length bs) rxMessage0)) =
      (bs ! (9 + unat (bs ! 8)) = highByte (sum16 (rx_body bs)) \<and>
       bs ! (10 + unat (bs ! 8)) = lowByte (sum16 (rx_body bs)))) \<and>
   take 9 rx_msg_1 = [0xAA, 0x55, 0x00, 0xFF, 0x01, 0x00, 0x10, 0x80, 0x0E] \<and>
   rx_body rx_msg_1 = take 23 rx_msg_1 \<and>
   sum16 (rx_body rx_msg_1) = 0x0575 \<and>
   [highByte 0x0575, lowByte 0x0575] = [0x05, 0x75] \<and>
   drop 23 rx_msg_1 = [0x05, 0x75]"
proof -
  have tx: "tx_frame txMessage =
        Some (tx_body txMessage @
              [highByte (sum16 (tx_body txMessage)), lowByte (sum16 (tx_body txMessage))])"
    if "length txMessage = 109" "unat (DataLength txMessage) \<le> 98"
    using solax_RS485_Send_frame [OF that, of "\<lambda>bs. int (length bs)",
        unfolded take_marker_tx_body [OF that(1)]]
    by (simp add: tx_frame_def)
  have rx: "(solax_RS485_Receive rxMessage0 (Some bs) = Some (ERR_NONE, bs @ drop (length bs) rxMessage0)) =
      (bs ! (9 + unat (bs ! 8)) = highByte (sum16 (rx_body bs)) \<and>
       bs ! (10 + unat (bs ! 8)) = lowByte (sum16 (rx_body bs)))"
    if "length rxMessage0 = 109" "11 \<le> length bs" "length bs \<le> 109"
       "bs ! 0 = 0xAA" "bs ! 1 = 0x55" "unat (bs ! 8) + 11 \<le> length bs"
    using solax_RS485_Receive_frame [OF that] by (simp add: rx_body_def)
  have s1: "rx_body rx_msg_1 = take 23 rx_msg_1"
    by (simp add: rx_body_def rx_msg_1_def)
  have s2: "sum16 (rx_body rx_msg_1) = 0x0575"
    by (simp add: rx_body_def rx_msg_1_def sum16_def)
  have s3: "[highByte 0x0575, lowByte 0x0575] = [0x05, 0x75]"
    by (simp add: highByte_def lowByte_def drop_bit_eq_div)
  show ?thesis
    using tx rx s1 s2 s3
    by (simp add: solax_CalculateCRC_sum unat_sum16 unat_highByte_lowByte)
       (simp add: rx_msg_1_def)
qed


lemma sum16_broadcast: "sum16 [0xAA, 0x55, 1, 0, 0, 0, 0x10, 0, 0] = 0x0110"
  by (simp add: sum16_def)

lemma bytes_0110: "highByte 0x0110 = 0x01" "lowByte 0x0110 = 0x10"
  by (simp_all add: highByte_def lowByte_def drop_bit_eq_div)

lemma bytes_0575: "highByte 0x0575 = 0x05" "lowByte 0x0575 = 0x75"
  by (simp_all add: highByte_def lowByte_def drop_bit_eq_div)

lemma tx_body_broadcast:
  "tx_body ([0, 0, 1, 0, 0, 0, 0x10, 0, 0] @ replicate 100 0) = [0xAA, 0x55, 1, 0, 0, 0, 0x10, 0, 0]"
  by (simp add: tx_body_def DataLength_def)

lemma rx_body_rx_msg_1: "rx_body rx_msg_1 = take 23 rx_msg_1"
  by (simp add: rx_body_def rx_msg_1_def)

lemma sum16_rx_msg_1: "sum16 (take 23 rx_msg_1) = 0x0575"
  by (simp add: rx_msg_1_def sum16_def)

theorem C1_additive_checksum_witness:
  "solax_CalculateCRC rx_msg_1 22 = Some 0x0575 \<and>
   tx_frame ([0, 0, 1, 0, 0, 0, 0x10, 0, 0] @ replicate 100 0) =
     Some [0xAA, 0x55, 1, 0, 0, 0, 0x10, 0, 0, 0x01, 0x10] \<and>
   solax_RS485_Receive (replicate 109 0) (Some rx_msg_1) =
     Some (ERR_NONE, rx_msg_1 @ replicate 84 0)"
proof -
  let ?M = "[0, 0, 1, 0, 0, 0, 0x10, 0, 0] @ replicate 100 (0 :: u8)"
  note T = C1_additive_checksum [of 22 rx_msg_1 "take 23 rx_msg_1" "0x0575" ?M
      "replicate 109 0" rx_msg_1,
      unfolded tx_body_broadcast sum16_broadcast bytes_0110 rx_body_rx_msg_1 sum16_rx_msg_1
        bytes_0575]
  have "solax_CalculateCRC rx_msg_1 22 = Some 0x0575"
    using T by (simp add: rx_msg_1_def sum16_def)
  moreover have "tx_frame ?M = Some [0xAA, 0x55, 1, 0, 0, 0, 0x10, 0, 0, 0x01, 0x10]"
    using T by (simp add: DataLength_def)
  moreover have "solax_RS485_Receive (replicate 109 0) (Some rx_msg_1) =
     Some (ERR_NONE, rx_msg_1 @ replicate 84 0)"
    using T by (simp add: rx_msg_1_def)
  ultimately show ?thesis by simp
qed

lemma solax_RS485_Send_error:
  assumes "solax_RS485_Send txMessage wr = Some (m, frame, e)"
  shows "(e = ERR_NONE \<or> e = ERR_MINUS_1) \<and> (e = ERR_MINUS_1) = (wr frame \<noteq> int (length frame))"
  using assms
  by (auto simp add: solax_RS485_Send_def Let_def split: option.splits if_splits)

text \<open>
  C9. \<open>solax_RS485_Send\<close> never looks at the size of the payload, and the only error it
  returns is \<open>-1\<close>, when \<open>write\<close> does not report the length of the whole frame. For a
  message of at most 98 payload bytes the bytes handed to \<open>write\<close> are marker, header
  and payload followed by two bytes \<open>hi\<close>, \<open>lo\<close> with \<open>hi * 256 + lo\<close> the additive
  checksum of what precedes them (big-endian), and the call returns \<open>ERR_NONE\<close> when
  \<open>write\<close> accepts them all.
\<close>

theorem C9_encode_within_98:
  "(length txMessage = 109 \<and> unat (DataLength txMessage) \<le> 98 \<longrightarrow>
      (\<exists>m hi lo.
         solax_RS485_Send txMessage wr =
           Some (m, tx_body txMessage @ [hi, lo],
                 if wr (tx_body txMessage @ [hi, lo]) = int (11 + unat (DataLength txMessage))
                 then ERR_NONE else ERR_MINUS_1) \<and>
         unat hi * 256 + unat lo = unat (sum16 (tx_body txMessage)) \<and>
         length (tx_body txMessage) = 9 + unat (DataLength txMessage))) \<and>
   (solax_RS485_Send txMessage wr = Some (m', frame, e) \<longrightarrow>
      (e = ERR_NONE \<or> e = ERR_MINUS_1) \<and>
      (e = ERR_MINUS_1) = (wr frame \<noteq> int (length frame)))"
proof (intro conjI impI)
  assume a: "length txMessage = 109 \<and> unat (DataLength txMessage) \<le> 98"
  then have len: "length txMessage = 109" and dl: "unat (DataLength txMessage) \<le> 98"
    by simp_all
  let ?c = "sum16 (tx_body txMessage)"
  have "solax_RS485_Send txMessage wr =
          Some (txMessage[0 := 0xAA, 1 := 0x55, 9 + unat (DataLength txMessage) := highByte ?c,
                  10 + unat (DataLength txMessage) := lowByte ?c],
                tx_body txMessage @ [highByte ?c, lowByte ?c],
                if wr (tx_body txMessage @ [highByte ?c, lowByte ?c]) =
                     int (11 + unat (DataLength txMessage))
                then ERR_NONE else ERR_MINUS_1)"
    using solax_RS485_Send_frame [OF len dl, of wr, unfolded take_marker_tx_body [OF len]]
    by simp
  moreover have "unat (highByte ?c) * 256 + unat (lowByte ?c) = unat ?c"
    by (rule unat_highByte_lowByte)
  moreover have "length (tx_body txMessage) = 9 + unat (DataLength txMessage)"
    using len dl by (simp add: tx_body_def)
  ultimately show "\<exists>m hi lo.
         solax_RS485_Send txMessage wr =
           Some (m, tx_body txMessage @ [hi, lo],
                 if wr (tx_body txMessage @ [hi, lo]) = int (11 + unat (DataLength txMessage))
                 then ERR_NONE else ERR_MINUS_1) \<and>
         unat hi * 256 + unat lo = unat (sum16 (tx_body txMessage)) \<and>
         length (tx_body txMessage) = 9 + unat (DataLength txMessage)"
    by blast
next
  assume "solax_RS485_Send txMessage wr = Some (m', frame, e)"
  from solax_RS485_Send_error [OF this]
  show "e = ERR_NONE \<or> e = ERR_MINUS_1"
    and "(e = ERR_MINUS_1) = (wr frame \<noteq> int (length frame))"
    by blast+
qed

lemma two_bytes_of_272:
  assumes "unat (hi :: u8) * 256 + unat (lo :: u8) = 272"
  shows "hi = 1 \<and> lo = 0x10"
proof -
  have "unat lo < 256" using unsigned_less [of lo, where ?'a = nat] by simp
  with assms have "unat hi = 1 \<and> unat lo = 16" by arith
  then have "unat hi = unat (1 :: u8)" and "unat lo = unat (0x10 :: u8)" by simp_all
  then show ?thesis by (simp only: word_unat_eq_iff)
qed

theorem C9_encode_within_98_witness:
  "(\<exists>m. solax_RS485_Send ([0, 0, 1, 0, 0, 0, 0x10, 0, 0] @ replicate 100 0) write_all =
      Some (m, [0xAA, 0x55, 1, 0, 0, 0, 0x10, 0, 0, 0x01, 0x10], ERR_NONE)) \<and>
   (\<exists>m. solax_RS485_Send ([0, 0, 1, 0, 0, 0, 0x10, 0, 0] @ replicate 100 0) write_fails =
      Some (m, [0xAA, 0x55, 1, 0, 0, 0, 0x10, 0, 0, 0x01, 0x10], ERR_MINUS_1))"
proof -
  let ?M = "[0, 0, 1, 0, 0, 0, 0x10, 0, 0] @ replicate 100 (0 :: u8)"
  have s: "unat (0x0110 :: u16) = 272" by simp
  have "\<exists>m hi lo.
         solax_RS485_Send ?M wr =
           Some (m, [0xAA, 0x55, 1, 0, 0, 0, 0x10, 0, 0] @ [hi, lo],
                 if wr ([0xAA, 0x55, 1, 0, 0, 0, 0x10, 0, 0] @ [hi, lo]) = int (11 + unat (DataLength ?M))
                 then ERR_NONE else ERR_MINUS_1) \<and>
         unat hi * 256 + unat lo = 272" for wr
    using C9_encode_within_98 [of ?M wr, THEN conjunct1,
        unfolded tx_body_broadcast sum16_broadcast s]
    by (simp add: DataLength_def)
  then have "\<exists>m. solax_RS485_Send ?M wr =
           Some (m, [0xAA, 0x55, 1, 0, 0, 0, 0x10, 0, 0, 0x01, 0x10],
                 if wr [0xAA, 0x55, 1, 0, 0, 0, 0x10, 0, 0, 0x01, 0x10] = 11
                 then ERR_NONE else ERR_MINUS_1)" for wr
    using two_bytes_of_272 by (fastforce simp add: DataLength_def)
  from this [of write_all] this [of write_fails] show ?thesis
    by (simp add: write_all_def write_fails_def)
qed

theorem C9_encode_counterexample:
  "map_option (snd \<circ> snd)
     (solax_RS485_Send ([0, 0, 1, 0, 0, 0, 0x10, 0, 0] @ replicate 100 0) write_fails) =
     Some ERR_MINUS_1 \<and>
   solax_RS485_Send ([0, 0, 1, 0, 0, 0, 0x10, 0, 99] @ replicate 100 0) write_all = None"
proof -
  let ?M = "[0, 0, 1, 0, 0, 0, 0x10, 0, 0] @ replicate 100 (0 :: u8)"
  have "length ?M = 109" "unat (DataLength ?M) \<le> 98" by (simp_all add: DataLength_def)
  from solax_RS485_Send_frame [OF this, of write_fails]
  obtain m f e where s: "solax_RS485_Send ?M write_fails = Some (m, f, e)"
    by blast
  from solax_RS485_Send_error [OF s] have "e = ERR_MINUS_1"
    by (simp add: write_fails_def)
  with s have "map_option (snd \<circ> snd) (solax_RS485_Send ?M write_fails) = Some ERR_MINUS_1"
    by simp
  moreover have "solax_RS485_Send ([0, 0, 1, 0, 0, 0, 0x10, 0, 99] @ replicate 100 0) write_all = None"
    by (rule solax_RS485_Send_oversize) (simp add: DataLength_def)
  ultimately show ?thesis by simp
qed

text \<open>
  C2. A frame of eleven bytes whose length byte is \<open>0xF8\<close> declares 248 payload bytes,
  far more than are available, and is not answered with \<open>ERR_INVALID_MSG\<close>: the length
  \<open>msgLen\<close> is a \<open>uint8_t\<close> and wraps to 1, the length test passes, and the checksum
  bytes are then read at \<open>Data[248]\<close>, outside the message buffer.
\<close>

theorem C2_declared_length_wraps:
  "solax_RS485_Receive (replicate 109 0)
     (Some [0xAA, 0x55, 0, 0, 0, 0, 0, 0, 0xF8, 0, 0]) = None"
  by (rule solax_RS485_Receive_wrap_outside) simp_all

theorem C2_declared_length_wraps_witness:
  "solax_RS485_Receive (replicate 109 0) (Some [0xAA, 0x55, 0, 0, 0, 0, 0, 0, 0xF8, 0, 0]) \<noteq>
     Some (ERR_INVALID_MSG,
           [0xAA, 0x55, 0, 0, 0, 0, 0, 0, 0xF8, 0, 0] @ drop 11 (replicate 109 0))"
  using C2_declared_length_wraps by simp


subsection \<open>The telemetry decoder\<close>


lemma uint_ucast_u8_u32: "uint (ucast (x :: u8) :: u32) = uint x"
  by (simp add: uint_up_ucast is_up)

lemma uint_u8_bound: "uint (x :: u8) < 256"
  using uint_bounded [of x] by simp

lemma shift_or_add:
  "push_bit 8 (a :: u32) OR ucast (y :: u8) = push_bit 8 a + ucast y"
proof (rule disjunctive_add [symmetric])
  fix n
  show "\<not> bit (push_bit 8 a) n \<or> \<not> bit (ucast y :: u32) n"
    by (auto simp add: bit_simps dest: bit_imp_le_length)
qed

lemma uint_shift_add:
  assumes "uint (w :: u32) < 16777216"
  shows "uint (push_bit 8 w + ucast (y :: u8)) = uint w * 256 + uint y"
proof -
  have bw: "0 \<le> uint w" and bY: "uint y < 256" "0 \<le> uint y"
    by (simp_all add: uint_u8_bound)
  have 1: "uint w * 256 mod 4294967296 = uint w * 256"
    using assms bw by (intro mod_pos_pos_trivial) simp_all
  have 2: "(uint w * 256 + uint y) mod 4294967296 = uint w * 256 + uint y"
    using assms bw bY by (intro mod_pos_pos_trivial) simp_all
  show ?thesis
    by (simp add: uint_word_ariths push_bit_eq_mult uint_ucast_u8_u32 take_bit_eq_mod 1 2)
qed

lemma uint_Data_value2:
  "uint (Data_value2 m a b) = uint (Data m a) * 256 + uint (Data m b)"
  unfolding Data_value2_def shift_or_add
  using uint_u8_bound [of "Data m a"]
  by (subst uint_shift_add) (simp_all add: uint_ucast_u8_u32)

lemma uint_Data_value4:
  "uint (Data_value4 m a b c d) =
     uint (Data m a) * 16777216 + uint (Data m b) * 65536 + uint (Data m c) * 256 + uint (Data m d)"
proof -
  let ?A = "uint (Data m a)" and ?B = "uint (Data m b)"
  let ?C = "uint (Data m c)" and ?D = "uint (Data m d)"
  have bA: "?A < 256" "0 \<le> ?A" and bB: "?B < 256" "0 \<le> ?B"
    and bC: "?C < 256" "0 \<le> ?C" and bD: "?D < 256" "0 \<le> ?D"
    by (simp_all add: uint_u8_bound)
  define w1 :: u32 where "w1 = push_bit 8 (ucast (Data m a)) + ucast (Data m b)"
  define w2 :: u32 where "w2 = push_bit 8 w1 + ucast (Data m c)"
  have e: "Data_value4 m a b c d = push_bit 8 w2 + ucast (Data m d)"
    unfolding Data_value4_def w2_def w1_def
    by (simp only: shift_or_add [symmetric]) (simp add: push_bit_or or.assoc)
  have u1: "uint w1 = ?A * 256 + ?B"
    unfolding w1_def using bA by (subst uint_shift_add) (simp_all add: uint_ucast_u8_u32)
  have u2: "uint w2 = (?A * 256 + ?B) * 256 + ?C"
    unfolding w2_def using bA bB by (subst uint_shift_add) (simp_all add: u1)
  have "uint (Data_value4 m a b c d) = ((?A * 256 + ?B) * 256 + ?C) * 256 + ?D"
    unfolding e using bA bB bC by (subst uint_shift_add) (simp_all add: u2)
  then show ?thesis by simp
qed




lemma ucast_Data_value2: "(ucast (Data_value2 m a b) :: u8) = Data m b"
  unfolding Data_value2_def
  by (rule bit_word_eqI) (auto simp add: bit_simps)

lemma payload_field_2:
  "payload_field m off 2 = uint (Data m off) * 256 + uint (Data m (Suc off))"
  by (simp add: payload_field_def big_endian_def upt_rec)

lemma payload_field_4:
  "payload_field m off 4 =
     uint (Data m off) * 16777216 + uint (Data m (Suc off)) * 65536 +
     uint (Data m (Suc (Suc off))) * 256 + uint (Data m (Suc (Suc (Suc off))))"
  by (simp add: payload_field_def big_endian_def upt_rec)

lemma big_endian_4:
  "big_endian [a, b, c, d] = uint a * 16777216 + uint b * 65536 + uint c * 256 + uint d"
  by (simp add: big_endian_def)

lemma solax_RS485_Receive_buffer:
  "solax_RS485_Receive rxMessage0 r = Some (e, m) \<Longrightarrow> m = fst (read_tty rxMessage0 r)"
  unfolding solax_RS485_Receive_def Let_def
  by (cases "read_tty rxMessage0 r") (simp split: if_splits option.splits)


lemma uint_Data_value4_reversed:
  "uint (Data_value4 m a b c d) = big_endian [Data m a, Data m b, Data m c, Data m d]"
  by (simp add: uint_Data_value4 big_endian_4)

lemma field_values:
  "uint (Data_value2 m 0 1) = payload_field m 0 2"
  "uint (Data_value2 m 2 3) = payload_field m 2 2"
  "uint (Data_value2 m 4 5) = payload_field m 4 2"
  "uint (Data_value2 m 6 7) = payload_field m 6 2"
  "uint (Data_value2 m 8 9) = payload_field m 8 2"
  "uint (Data_value2 m 10 11) = payload_field m 10 2"
  "uint (Data_value2 m 12 13) = payload_field m 12 2"
  "uint (Data_value2 m 14 15) = payload_field m 14 2"
  "uint (Data_value2 m 16 17) = payload_field m 16 2"
  "uint (Data_value2 m 18 19) = payload_field m 18 2"
  "uint (Data_value2 m 30 31) = payload_field m 30 2"
  "uint (Data_value4 m 22 23 24 25) = payload_field m 22 4"
  "uint (Data_value4 m 26 27 28 29) = payload_field m 26 4"
  "uint (Data_value2 m 0 (Suc 0)) = payload_field m 0 2"
  by (simp_all add: uint_Data_value2 uint_Data_value4 payload_field_2 payload_field_4)

lemma word32_zero_iff_uint: "(w :: u32) = 0 \<longleftrightarrow> uint w = 0"
  by (simp add: uint_0_iff)

lemma u8_times_256: "(x :: u8) * 256 = 0"
proof -
  have "(256 :: u8) = 0" by simp
  then show ?thesis by (simp only: mult_zero_right)
qed

lemma low_byte_of_field: "(word_of_int (payload_field m 30 2) :: u8) = Data m 31"
  by (simp add: payload_field_2 u8_times_256)

lemma ReceiveQuery_LiveData_fields:
  fixes F :: "'f float_ops" and m :: "u8 list"
  defines "l \<equiv> ReceiveQuery_LiveData F m (LiveData_zero F)"
  shows "valid l"
    and "Temperature l = flt_of_int F (payload_field m 0 2)"
    and "Energy_Today l = flt_mul F (flt_of_int F (payload_field m 2 2)) (flt_c01 F)"
    and "DC1_Voltage l = flt_mul F (flt_of_int F (payload_field m 4 2)) (flt_c01 F)"
    and "DC2_Voltage l = flt_mul F (flt_of_int F (payload_field m 6 2)) (flt_c01 F)"
    and "DC1_Current l = flt_mul F (flt_of_int F (payload_field m 8 2)) (flt_c01 F)"
    and "DC2_Current l = flt_mul F (flt_of_int F (payload_field m 10 2)) (flt_c01 F)"
    and "AC_Current l = flt_mul F (flt_of_int F (payload_field m 12 2)) (flt_c01 F)"
    and "AC_Voltage l = flt_mul F (flt_of_int F (payload_field m 14 2)) (flt_c01 F)"
    and "Frequency l = flt_mul F (flt_of_int F (payload_field m 16 2)) (flt_c001 F)"
    and "Power l = flt_of_int F (payload_field m 18 2)"
    and "Energy_Total l =
           (if payload_field m 22 4 = 0 then flt_zero F
            else flt_mul F (flt_of_int F (payload_field m 22 4)) (flt_c01 F))"
    and "Runtime_Total l =
           (if payload_field m 26 4 = 0 then flt_zero F else flt_of_int F (payload_field m 26 4))"
    and "Status l = word_of_int (payload_field m 30 2)"
    and "Status l = Data m 31"
    and "uint (ErrorBits l) = big_endian [Data m 49, Data m 48, Data m 47, Data m 46]"
proof -
  note defs = l_def ReceiveQuery_LiveData_def Let_def LiveData_zero_def
  note flds = field_values
  show "valid l" by (simp add: defs)
  show "Temperature l = flt_of_int F (payload_field m 0 2)" by (simp add: defs flds)
  show "Energy_Today l = flt_mul F (flt_of_int F (payload_field m 2 2)) (flt_c01 F)"
    by (simp add: defs flds)
  show "DC1_Voltage l = flt_mul F (flt_of_int F (payload_field m 4 2)) (flt_c01 F)"
    by (simp add: defs flds)
  show "DC2_Voltage l = flt_mul F (flt_of_int F (payload_field m 6 2)) (flt_c01 F)"
    by (simp add: defs flds)
  show "DC1_Current l = flt_mul F (flt_of_int F (payload_field m 8 2)) (flt_c01 F)"
    by (simp add: defs flds)
  show "DC2_Current l = flt_mul F (flt_of_int F (payload_field m 10 2)) (flt_c01 F)"
    by (simp add: defs flds)
  show "AC_Current l = flt_mul F (flt_of_int F (payload_field m 12 2)) (flt_c01 F)"
    by (simp add: defs flds)
  show "AC_Voltage l = flt_mul F (flt_of_int F (payload_field m 14 2)) (flt_c01 F)"
    by (simp add: defs flds)
  show "Frequency l = flt_mul F (flt_of_int F (payload_field m 16 2)) (flt_c001 F)"
    by (simp add: defs flds)
  show "Power l = flt_of_int F (payload_field m 18 2)" by (simp add: defs flds)
  show "Energy_Total l =
           (if payload_field m 22 4 = 0 then flt_zero F
            else flt_mul F (flt_of_int F (payload_field m 22 4)) (flt_c01 F))"
    using field_values(12) [of m]
    by (simp add: defs word32_zero_iff_uint)
  show "Runtime_Total l =
           (if payload_field m 26 4 = 0 then flt_zero F else flt_of_int F (payload_field m 26 4))"
    using field_values(13) [of m]
    by (simp add: defs word32_zero_iff_uint)
  show "Status l = Data m 31" by (simp add: defs ucast_Data_value2)
  show "Status l = word_of_int (payload_field m 30 2)"
    by (simp add: defs ucast_Data_value2 low_byte_of_field)
  show "uint (ErrorBits l) = big_endian [Data m 49, Data m 48, Data m 47, Data m 46]"
    by (simp add: defs uint_Data_value4_reversed)
qed

lemma solax_ReceiveQuery_LIVE_DATA_valid:
  assumes "solax_ReceiveQuery F STATE_QUERY_LIVE_DATA st liveData0 r = Some (ERR_NONE, liveData, st')"
    and "ControlCode (rxMessage st') = 0x11" "FunctionCode (rxMessage st') = 0x82"
  shows "liveData = ReceiveQuery_LiveData F (rxMessage st') (LiveData_zero F)"
    and "rxMessage st' = fst (read_tty (rxMessage st) r)"
proof -
  obtain e m where rv: "solax_RS485_Receive (rxMessage st) r = Some (e, m)"
    using assms(1) by (auto simp add: solax_ReceiveQuery_def split: option.splits)
  have st': "st' = st\<lparr>rxMessage := m\<rparr> \<and> e = ERR_NONE"
    using assms(1) unfolding solax_ReceiveQuery_def rv Let_def
    by (simp split: if_splits)
  then show "rxMessage st' = fst (read_tty (rxMessage st) r)"
    using solax_RS485_Receive_buffer [OF rv] by simp
  show "liveData = ReceiveQuery_LiveData F (rxMessage st') (LiveData_zero F)"
    using assms st' unfolding solax_ReceiveQuery_def rv Let_def
    by (simp split: if_splits)
qed


lemma solax_ReceiveQuery_LIVE_DATA_frame:
  assumes len0: "length (rxMessage st) = 109"
    and len: "11 \<le> length bs" "length bs \<le> 109"
    and marker: "bs ! 0 = 0xAA" "bs ! 1 = 0x55"
    and fits: "unat (bs ! 8) + 11 \<le> length bs"
    and crc: "bs ! (9 + unat (bs ! 8)) = highByte (sum16 (rx_body bs))"
             "bs ! (10 + unat (bs ! 8)) = lowByte (sum16 (rx_body bs))"
    and codes: "bs ! 6 = 0x11" "bs ! 7 = 0x82"
  shows "solax_ReceiveQuery F STATE_QUERY_LIVE_DATA st liveData0 (Some bs) =
           Some (ERR_NONE,
                 ReceiveQuery_LiveData F (bs @ drop (length bs) (rxMessage st)) (LiveData_zero F),
                 st\<lparr>rxMessage := bs @ drop (length bs) (rxMessage st)\<rparr>)"
proof -
  define rx where "rx = bs @ drop (length bs) (rxMessage st)"
  have rv: "solax_RS485_Receive (rxMessage st) (Some bs) = Some (ERR_NONE, rx)"
    using solax_RS485_Receive_frame [OF len0 len marker fits] crc
    by (simp add: rx_body_def rx_def)
  have "rx ! 6 = bs ! 6" "rx ! 7 = bs ! 7"
    using len by (simp_all add: rx_def nth_append)
  then have cf: "ControlCode rx = 0x11" "FunctionCode rx = 0x82"
    using codes by (simp_all add: ControlCode_def FunctionCode_def)
  show ?thesis
    unfolding solax_ReceiveQuery_def rv Let_def rx_def [symmetric]
    by (simp add: cf)
qed

lemma rx_msg_3_frame:
  "length rx_msg_3 = 61" "rx_msg_3 ! 0 = 0xAA" "rx_msg_3 ! 1 = 0x55" "rx_msg_3 ! 8 = 0x32"
  "rx_msg_3 ! 6 = 0x11" "rx_msg_3 ! 7 = 0x82" "rx_msg_3 ! 59 = 0x07" "rx_msg_3 ! 60 = 0x9C"
  "rx_msg_3 ! Suc 0 = 0x55"
  by (simp_all add: rx_msg_3_def)

lemma rx_msg_3_sum: "sum16 (rx_body rx_msg_3) = 0x079C"
  by (simp add: rx_body_def rx_msg_3_def sum16_def)

lemma bytes_079C: "highByte 0x079C = 0x07" "lowByte 0x079C = 0x9C"
  by (simp_all add: highByte_def lowByte_def drop_bit_eq_div)

lemma solax_ReceiveQuery_rx_msg_3:
  assumes "length (rxMessage st) = 109"
  shows "solax_ReceiveQuery F STATE_QUERY_LIVE_DATA st liveData0 (Some rx_msg_3) =
           Some (ERR_NONE,
                 ReceiveQuery_LiveData F (rx_msg_3 @ drop 61 (rxMessage st)) (LiveData_zero F),
                 st\<lparr>rxMessage := rx_msg_3 @ drop 61 (rxMessage st)\<rparr>)"
  using solax_ReceiveQuery_LIVE_DATA_frame [of st rx_msg_3 F liveData0] assms
  by (simp add: rx_msg_3_frame rx_msg_3_sum bytes_079C)

lemma rx_msg_3_fields:
  "payload_field (rx_msg_3 @ xs) 0 2 = 11"
  "payload_field (rx_msg_3 @ xs) 2 2 = 1"
  "payload_field (rx_msg_3 @ xs) 18 2 = 487"
  "payload_field (rx_msg_3 @ xs) 16 2 = 4999"
  "payload_field (rx_msg_3 @ xs) 22 4 = 4819"
  "payload_field (rx_msg_3 @ xs) 26 4 = 2575"
  by (simp_all add: payload_field_2 payload_field_4 Data_def rx_msg_3_def nth_append)




text \<open>
  C5. For a live-data response that \<open>solax_ReceiveQuery\<close> accepts (return value
  \<open>ERR_NONE\<close>, control code \<open>0x11\<close>, function code \<open>0x82\<close>) every field of the sample
  is the big-endian value of the payload bytes at its offset, times its scale:
  Temperature at 0, Energy_Today at 2 times 0.1, the DC voltages at 4 and 6 and the DC
  currents at 8 and 10 times 0.1, AC current at 12 and AC voltage at 14 times 0.1,
  Frequency at 16 times 0.01, Power at 18, Energy_Total at 22 (four bytes) times 0.1,
  Runtime_Total at 26 (four bytes), Status the low byte of the field at 30, and ErrorBits
  the value of the bytes 49, 48, 47, 46 in this order; and \<open>valid\<close> is set. The payload
  is the \<open>Data\<close> array of the receive buffer after the \<open>read\<close>. The arithmetic of
  \<open>float\<close> enters by two facts only: \<open>(float)0\<close> is \<open>0.0f\<close>, and \<open>0.0f * 0.1f\<close> is \<open>0.0f\<close>.
\<close>

theorem C5_live_data_fields:
  assumes rq: "solax_ReceiveQuery F STATE_QUERY_LIVE_DATA st liveData0 r = Some (ERR_NONE, liveData, st')"
    and codes: "ControlCode (rxMessage st') = 0x11" "FunctionCode (rxMessage st') = 0x82"
    and zero: "flt_of_int F 0 = flt_zero F" "flt_mul F (flt_zero F) (flt_c01 F) = flt_zero F"
  shows "rxMessage st' = fst (read_tty (rxMessage st) r) \<and>
         valid liveData \<and>
         Temperature liveData = flt_of_int F (payload_field (rxMessage st') 0 2) \<and>
         Energy_Today liveData = flt_mul F (flt_of_int F (payload_field (rxMessage st') 2 2)) (flt_c01 F) \<and>
         DC1_Voltage liveData = flt_mul F (flt_of_int F (payload_field (rxMessage st') 4 2)) (flt_c01 F) \<and>
         DC2_Voltage liveData = flt_mul F (flt_of_int F (payload_field (rxMessage st') 6 2)) (flt_c01 F) \<and>
         DC1_Current liveData = flt_mul F (flt_of_int F (payload_field (rxMessage st') 8 2)) (flt_c01 F) \<and>
         DC2_Current liveData = flt_mul F (flt_of_int F (payload_field (rxMessage st') 10 2)) (flt_c01 F) \<and>
         AC_Current liveData = flt_mul F (flt_of_int F (payload_field (rxMessage st') 12 2)) (flt_c01 F) \<and>
         AC_Voltage liveData = flt_mul F (flt_of_int F (payload_field (rxMessage st') 14 2)) (flt_c01 F) \<and>
         Frequency liveData = flt_mul F (flt_of_int F (payload_field (rxMessage st') 16 2)) (flt_c001 F) \<and>
         Power liveData = flt_of_int F (payload_field (rxMessage st') 18 2) \<and>
         Energy_Total liveData = flt_mul F (flt_of_int F (payload_field (rxMessage st') 22 4)) (flt_c01 F) \<and>
         Runtime_Total liveData = flt_of_int F (payload_field (rxMessage st') 26 4) \<and>
         Status liveData = word_of_int (payload_field (rxMessage st') 30 2) \<and>
         Status liveData = Data (rxMessage st') 31 \<and>
         uint (ErrorBits liveData) =
           big_endian [Data (rxMessage st') 49, Data (rxMessage st') 48,
                       Data (rxMessage st') 47, Data (rxMessage st') 46]"
proof -
  note v = solax_ReceiveQuery_LIVE_DATA_valid [OF rq codes]
  note f = ReceiveQuery_LiveData_fields [of F "rxMessage st'", folded v(1)]
  have et: "Energy_Total liveData = flt_mul F (flt_of_int F (payload_field (rxMessage st') 22 4)) (flt_c01 F)"
    using f(12) zero by simp
  have rt: "Runtime_Total liveData = flt_of_int F (payload_field (rxMessage st') 26 4)"
    using f(13) zero by simp
  show ?thesis
    using v(2) f(1-11) et rt f(14-16) by (intro conjI)
qed


lemma exact_ops_simps:
  "flt_zero exact_ops = 0" "flt_of_int exact_ops = of_int" "flt_c01 exact_ops = 1 / 10"
  "flt_c001 exact_ops = 1 / 100" "flt_add exact_ops = (+)" "flt_mul exact_ops = (*)"
  "flt_div exact_ops = (/)" "flt_less exact_ops = (<)"
  by (simp_all add: exact_ops_def)

lemma rx_msg_3_codes:
  "ControlCode (rx_msg_3 @ xs) = 0x11" "FunctionCode (rx_msg_3 @ xs) = 0x82"
  by (simp_all add: ControlCode_def FunctionCode_def rx_msg_3_def)

lemma rx_msg_3_more_fields:
  "Data (rx_msg_3 @ xs) 31 = 2"
  "big_endian [Data (rx_msg_3 @ xs) 49, Data (rx_msg_3 @ xs) 48,
               Data (rx_msg_3 @ xs) 47, Data (rx_msg_3 @ xs) 46] = 0"
  "payload_field (rx_msg_3 @ xs) 30 2 = 2"
  by (simp_all add: Data_def rx_msg_3_def big_endian_def payload_field_2)

lemma statics_init_rxMessage: "length (rxMessage statics_init) = 109"
  "drop 61 (rxMessage statics_init) = replicate 48 0"
  by (simp_all add: statics_init_def sizeof_Solax_Message_t_def)

theorem C5_live_data_fields_witness:
  "valid (ReceiveQuery_LiveData exact_ops (rx_msg_3 @ replicate 48 0) (LiveData_zero exact_ops)) \<and>
   Temperature (ReceiveQuery_LiveData exact_ops (rx_msg_3 @ replicate 48 0) (LiveData_zero exact_ops)) = 11 \<and>
   Frequency (ReceiveQuery_LiveData exact_ops (rx_msg_3 @ replicate 48 0) (LiveData_zero exact_ops)) = 4999 / 100 \<and>
   Energy_Total (ReceiveQuery_LiveData exact_ops (rx_msg_3 @ replicate 48 0) (LiveData_zero exact_ops)) = 4819 / 10 \<and>
   Runtime_Total (ReceiveQuery_LiveData exact_ops (rx_msg_3 @ replicate 48 0) (LiveData_zero exact_ops)) = 2575 \<and>
   Status (ReceiveQuery_LiveData exact_ops (rx_msg_3 @ replicate 48 0) (LiveData_zero exact_ops)) = 2 \<and>
   ErrorBits (ReceiveQuery_LiveData exact_ops (rx_msg_3 @ replicate 48 0) (LiveData_zero exact_ops)) = 0"
proof -
  let ?m = "rx_msg_3 @ replicate 48 (0 :: u8)"
  let ?l = "ReceiveQuery_LiveData exact_ops ?m (LiveData_zero exact_ops)"
  have rq: "solax_ReceiveQuery exact_ops STATE_QUERY_LIVE_DATA statics_init (LiveData_zero exact_ops)
              (Some rx_msg_3) = Some (ERR_NONE, ?l, statics_init\<lparr>rxMessage := ?m\<rparr>)"
    using solax_ReceiveQuery_rx_msg_3 [of statics_init exact_ops "LiveData_zero exact_ops"]
    by (simp add: statics_init_rxMessage)
  have c: "ControlCode (rxMessage (statics_init\<lparr>rxMessage := ?m\<rparr>)) = 0x11"
          "FunctionCode (rxMessage (statics_init\<lparr>rxMessage := ?m\<rparr>)) = 0x82"
    by (simp_all add: rx_msg_3_codes)
  have z: "flt_of_int exact_ops 0 = flt_zero exact_ops"
          "flt_mul exact_ops (flt_zero exact_ops) (flt_c01 exact_ops) = flt_zero exact_ops"
    by (simp_all add: exact_ops_simps)
  note T = C5_live_data_fields [OF rq c z, THEN conjunct2]
  from T show ?thesis
    by (simp add: rx_msg_3_fields rx_msg_3_more_fields exact_ops_simps uint_0_iff)
qed

text \<open>
  C6, as the code has it. Decoding the sample frame \<open>rx_msg_3\<close> gives Temperature 11
  (the payload starts \<open>0x00 0x0B\<close>; the byte \<open>0x32\<close> before it is the payload length,
  50), Energy_Today \<open>1 * 0.1\<close> (raw \<open>0x0001\<close>), Power 487 (raw \<open>0x01E7\<close>), and \<open>valid\<close>
  is set.
\<close>

theorem C6_rx_msg_3_sample:
  assumes "length (rxMessage st) = 109"
  shows "\<exists>l. received_sample (solax_ReceiveQuery F STATE_QUERY_LIVE_DATA st liveData0 (Some rx_msg_3))
               = Some l \<and>
             Temperature l = flt_of_int F 11 \<and>
             Energy_Today l = flt_mul F (flt_of_int F 1) (flt_c01 F) \<and>
             Power l = flt_of_int F 487 \<and>
             valid l"
proof -
  let ?m = "rx_msg_3 @ drop 61 (rxMessage st)"
  note f = ReceiveQuery_LiveData_fields [of F ?m, unfolded rx_msg_3_fields]
  show ?thesis
    unfolding solax_ReceiveQuery_rx_msg_3 [OF assms] received_sample_def
    using f(1) f(2) f(3) f(11) by simp
qed

theorem C6_rx_msg_3_sample_witness:
  "\<exists>l. received_sample (solax_ReceiveQuery exact_ops STATE_QUERY_LIVE_DATA statics_init
            (LiveData_zero exact_ops) (Some rx_msg_3)) = Some l \<and>
       Temperature l = 11 \<and> Energy_Today l = 1 / 10 \<and> Power l = 487 \<and> valid l"
  using C6_rx_msg_3_sample [of statics_init exact_ops "LiveData_zero exact_ops"]
  by (simp add: statics_init_rxMessage exact_ops_simps)

theorem C6_rx_msg_3_counterexample:
  "map_option Temperature (received_sample (solax_ReceiveQuery exact_ops STATE_QUERY_LIVE_DATA
       statics_init (LiveData_zero exact_ops) (Some rx_msg_3))) = Some 11 \<and>
   map_option Temperature (received_sample (solax_ReceiveQuery exact_ops STATE_QUERY_LIVE_DATA
       statics_init (LiveData_zero exact_ops) (Some rx_msg_3))) \<noteq> Some 50 \<and>
   map_option Energy_Today (received_sample (solax_ReceiveQuery exact_ops STATE_QUERY_LIVE_DATA
       statics_init (LiveData_zero exact_ops) (Some rx_msg_3))) = Some (1 / 10) \<and>
   map_option Energy_Today (received_sample (solax_ReceiveQuery exact_ops STATE_QUERY_LIVE_DATA
       statics_init (LiveData_zero exact_ops) (Some rx_msg_3))) \<noteq> Some (11 / 10)"
proof -
  let ?m = "rx_msg_3 @ drop 61 (rxMessage statics_init)"
  note f = ReceiveQuery_LiveData_fields [of exact_ops ?m, unfolded rx_msg_3_fields]
  show ?thesis
    unfolding solax_ReceiveQuery_rx_msg_3 [OF statics_init_rxMessage(1)] received_sample_def
    using f(2) f(3) by (simp add: exact_ops_simps)
qed


lemma rx_msg_zero_totals_frame:
  "length rx_msg_zero_totals = 61" "rx_msg_zero_totals ! 0 = 0xAA" "rx_msg_zero_totals ! 1 = 0x55"
  "rx_msg_zero_totals ! 8 = 0x32" "rx_msg_zero_totals ! 6 = 0x11" "rx_msg_zero_totals ! 7 = 0x82"
  "rx_msg_zero_totals ! 59 = 0x06" "rx_msg_zero_totals ! 60 = 0x9E"
  "rx_msg_zero_totals ! Suc 0 = 0x55"
  by (simp_all add: rx_msg_zero_totals_def)

lemma rx_msg_zero_totals_sum: "sum16 (rx_body rx_msg_zero_totals) = 0x069E"
  by (simp add: rx_body_def rx_msg_zero_totals_def sum16_def)

lemma bytes_069E: "highByte 0x069E = 0x06" "lowByte 0x069E = 0x9E"
  by (simp_all add: highByte_def lowByte_def drop_bit_eq_div)

lemma solax_ReceiveQuery_rx_msg_zero_totals:
  assumes "length (rxMessage st) = 109"
  shows "solax_ReceiveQuery F STATE_QUERY_LIVE_DATA st liveData0 (Some rx_msg_zero_totals) =
           Some (ERR_NONE,
                 ReceiveQuery_LiveData F (rx_msg_zero_totals @ drop 61 (rxMessage st)) (LiveData_zero F),
                 st\<lparr>rxMessage := rx_msg_zero_totals @ drop 61 (rxMessage st)\<rparr>)"
  using solax_ReceiveQuery_LIVE_DATA_frame [of st rx_msg_zero_totals F liveData0] assms
  by (simp add: rx_msg_zero_totals_frame rx_msg_zero_totals_sum bytes_069E)

lemma rx_msg_zero_totals_fields:
  "payload_field (rx_msg_zero_totals @ xs) 22 4 = 0"
  "payload_field (rx_msg_zero_totals @ xs) 26 4 = 0"
  by (simp_all add: payload_field_4 Data_def rx_msg_zero_totals_def nth_append)

text \<open>
  C8. The sample in the slot holds Energy_Total 481.9 and Runtime_Total 2575 (decoded
  from \<open>rx_msg_3\<close>); a valid live-data response whose Energy_Total and Runtime_Total
  bytes are zero is then received into the same slot. The decoded sample holds 0 for
  both: \<open>solax_ReceiveQuery\<close> clears \<open>*liveData\<close> before it decodes, so the test
  \<open>if (value)\<close> keeps the zero of the cleared sample, not the earlier value.
\<close>

theorem C8_zero_reading_clears_totals:
  "Energy_Total (ReceiveQuery_LiveData exact_ops (rx_msg_3 @ replicate 48 0) (LiveData_zero exact_ops))
     = 4819 / 10 \<and>
   Runtime_Total (ReceiveQuery_LiveData exact_ops (rx_msg_3 @ replicate 48 0) (LiveData_zero exact_ops))
     = 2575 \<and>
   map_option Energy_Total (received_sample (solax_ReceiveQuery exact_ops STATE_QUERY_LIVE_DATA
       statics_init
       (ReceiveQuery_LiveData exact_ops (rx_msg_3 @ replicate 48 0) (LiveData_zero exact_ops))
       (Some rx_msg_zero_totals))) = Some 0 \<and>
   map_option Runtime_Total (received_sample (solax_ReceiveQuery exact_ops STATE_QUERY_LIVE_DATA
       statics_init
       (ReceiveQuery_LiveData exact_ops (rx_msg_3 @ replicate 48 0) (LiveData_zero exact_ops))
       (Some rx_msg_zero_totals))) = Some 0 \<and>
   map_option valid (received_sample (solax_ReceiveQuery exact_ops STATE_QUERY_LIVE_DATA
       statics_init
       (ReceiveQuery_LiveData exact_ops (rx_msg_3 @ replicate 48 0) (LiveData_zero exact_ops))
       (Some rx_msg_zero_totals))) = Some True"
proof -
  note p = ReceiveQuery_LiveData_fields [of exact_ops "rx_msg_3 @ replicate 48 0",
      unfolded rx_msg_3_fields]
  note f = ReceiveQuery_LiveData_fields [of exact_ops
      "rx_msg_zero_totals @ drop 61 (rxMessage statics_init)", unfolded rx_msg_zero_totals_fields]
  show ?thesis
    unfolding solax_ReceiveQuery_rx_msg_zero_totals [OF statics_init_rxMessage(1)] received_sample_def
    using p(12) p(13) f(1) f(12) f(13) by (simp add: exact_ops_simps)
qed

theorem C8_zero_reading_clears_totals_witness:
  "map_option Energy_Total (received_sample (solax_ReceiveQuery exact_ops STATE_QUERY_LIVE_DATA
       statics_init
       (ReceiveQuery_LiveData exact_ops (rx_msg_3 @ replicate 48 0) (LiveData_zero exact_ops))
       (Some rx_msg_zero_totals))) \<noteq> Some (4819 / 10)"
  unfolding C8_zero_reading_clears_totals [THEN conjunct2, THEN conjunct2, THEN conjunct1]
  by simp

lemma solax_ReceiveQuery_forgets_sample:
  assumes "solax_ReceiveQuery F sq st liveData0 r = Some (e, l, st')" and "e \<noteq> ERR_MINUS_1"
  shows "solax_ReceiveQuery F sq st liveData1 r = Some (e, l, st')"
proof -
  obtain e0 m where rv: "solax_RS485_Receive (rxMessage st) r = Some (e0, m)"
    using assms(1) by (auto simp add: solax_ReceiveQuery_def split: option.splits)
  have "e0 \<noteq> ERR_MINUS_1"
    using assms unfolding solax_ReceiveQuery_def rv Let_def
    by (cases sq) (auto split: if_splits)
  then show ?thesis
    using assms(1) unfolding solax_ReceiveQuery_def rv Let_def
    by simp
qed




subsection \<open>The query state machine\<close>

lemma QueryHandle_switch_failure:
  assumes "errorRx \<noteq> ERR_NONE"
  shows "QueryHandle_switch errorRx st =
     (let threshold = (case stateQuery st of STATE_BROARDCAST \<Rightarrow> 10
                         | STATE_INVERTER_ADDRESS \<Rightarrow> 3 | STATE_QUERY_LIVE_DATA \<Rightarrow> 3);
          target = (case stateQuery st of STATE_BROARDCAST \<Rightarrow> STATE_QUERY_LIVE_DATA
                      | STATE_INVERTER_ADDRESS \<Rightarrow> STATE_BROARDCAST
                      | STATE_QUERY_LIVE_DATA \<Rightarrow> STATE_BROARDCAST)
      in if countError st + 1 \<ge> threshold
         then st\<lparr>countError := 0, stateQuery := target\<rparr>
         else st\<lparr>countError := countError st + 1\<rparr>)"
  using assms by (cases "stateQuery st") (simp_all add: QueryHandle_switch_def Let_def)

lemma QueryHandle_switch_success:
  "QueryHandle_switch ERR_NONE st =
     (case stateQuery st of
        STATE_BROARDCAST \<Rightarrow> st\<lparr>countError := 0, stateQuery := STATE_INVERTER_ADDRESS\<rparr>
      | STATE_INVERTER_ADDRESS \<Rightarrow> st\<lparr>countError := 0, stateQuery := STATE_QUERY_LIVE_DATA\<rparr>
      | STATE_QUERY_LIVE_DATA \<Rightarrow> st\<lparr>timeoutInverterOnline := 0\<rparr>)"
  by (cases "stateQuery st") (simp_all add: QueryHandle_switch_def)

lemma QueryHandle_switch_online [simp]:
  "solax_InverterOnline (QueryHandle_switch e st) = solax_InverterOnline st"
  by (cases "stateQuery st") (simp_all add: QueryHandle_switch_def Let_def)

lemma QueryHandle_switch_timeout_failure:
  "e \<noteq> ERR_NONE \<Longrightarrow>
   timeoutInverterOnline (QueryHandle_switch e st) = timeoutInverterOnline st"
  by (cases "stateQuery st") (simp_all add: QueryHandle_switch_def Let_def)

lemma QueryHandle_online_eq:
  "QueryHandle_online st =
     (if solax_InverterOnline st
      then st\<lparr>timeoutInverterOnline := timeoutInverterOnline st + 1,
              solax_InverterOnline := (timeoutInverterOnline st + 1 < 30)\<rparr>
      else st\<lparr>solax_InverterOnline := (timeoutInverterOnline st = 0)\<rparr>)"
  by (simp add: QueryHandle_online_def Let_def TIMEOUT_INVERTER_ONLINE_def)

lemma QueryHandle_tick_failure_online:
  assumes "e \<noteq> ERR_NONE"
  shows "solax_InverterOnline (QueryHandle_tick e st) =
           (if solax_InverterOnline st then timeoutInverterOnline st + 1 < 30
            else timeoutInverterOnline st = 0)"
    and "timeoutInverterOnline (QueryHandle_tick e st) =
           (if solax_InverterOnline st then timeoutInverterOnline st + 1
            else timeoutInverterOnline st)"
  using assms
  by (simp_all add: QueryHandle_tick_def QueryHandle_online_eq QueryHandle_switch_timeout_failure)

lemma fold_tick_failures_online:
  assumes "\<forall>e \<in> set errs. e \<noteq> ERR_NONE" and "solax_InverterOnline st"
    and "timeoutInverterOnline st < 30"
  shows "solax_InverterOnline (fold QueryHandle_tick errs st) =
           (timeoutInverterOnline st + int (length errs) < 30) \<and>
         timeoutInverterOnline (fold QueryHandle_tick errs st) =
           min 30 (timeoutInverterOnline st + int (length errs))"
  using assms
proof (induction errs arbitrary: st)
  case Nil
  then show ?case by simp
next
  case (Cons e errs)
  then have e: "e \<noteq> ERR_NONE" by simp
  let ?st = "QueryHandle_tick e st"
  have t: "timeoutInverterOnline ?st = timeoutInverterOnline st + 1"
    and o: "solax_InverterOnline ?st = (timeoutInverterOnline st + 1 < 30)"
    using Cons.prems(2) by (simp_all add: QueryHandle_tick_failure_online [OF e])
  show ?case
  proof (cases "timeoutInverterOnline st + 1 < 30")
    case True
    with o t Cons.IH [of ?st] Cons.prems(1) show ?thesis by simp
  next
    case False
    have stay: "\<not> solax_InverterOnline (fold QueryHandle_tick es s) \<and>
                timeoutInverterOnline (fold QueryHandle_tick es s) = timeoutInverterOnline s"
      if "\<forall>e \<in> set es. e \<noteq> ERR_NONE" "\<not> solax_InverterOnline s" "timeoutInverterOnline s \<noteq> 0"
      for es s
      using that
      by (induction es arbitrary: s) (simp_all add: QueryHandle_tick_failure_online)
    from False Cons.prems(3) have "timeoutInverterOnline ?st = 30" using t by simp
    with stay [of errs ?st] o False Cons.prems(1) show ?thesis by simp
  qed
qed

lemma fold_tick_failures_offline:
  assumes "\<forall>e \<in> set errs. e \<noteq> ERR_NONE" and "\<not> solax_InverterOnline st"
    and "timeoutInverterOnline st \<noteq> 0"
  shows "\<not> solax_InverterOnline (fold QueryHandle_tick errs st) \<and>
         timeoutInverterOnline (fold QueryHandle_tick errs st) = timeoutInverterOnline st"
  using assms
  by (induction errs arbitrary: st) (simp_all add: QueryHandle_tick_failure_online)

lemma QueryHandle_tick_live_data_success:
  assumes "stateQuery st = STATE_QUERY_LIVE_DATA"
  shows "QueryHandle_tick ERR_NONE st =
           (if solax_InverterOnline st then st\<lparr>timeoutInverterOnline := 1\<rparr>
            else st\<lparr>timeoutInverterOnline := 0, solax_InverterOnline := True\<rparr>)"
  using assms
  by (simp add: QueryHandle_tick_def QueryHandle_switch_success QueryHandle_online_eq)




lemma solax_SendQuery_Some:
  assumes "length serial = 15"
  shows "\<exists>m frame. solax_SendQuery addr serial sq write_all = Some (m, frame, ERR_NONE)"
proof -
  have S: "\<exists>m frame. solax_RS485_Send tx write_all = Some (m, frame, ERR_NONE)"
    if "length tx = 109" "unat (DataLength tx) \<le> 98" for tx
  proof -
    have "write_all (take (9 + unat (DataLength tx)) (tx[0 := 0xAA, 1 := 0x55]) @ [a, b]) =
          int (11 + unat (DataLength tx))" for a b
      using that by (simp add: write_all_def)
    then show ?thesis
      unfolding solax_RS485_Send_frame [OF that, of write_all] by simp
  qed
  show ?thesis
  proof (cases sq)
    case STATE_BROARDCAST
    then show ?thesis
      unfolding solax_SendQuery_def solax_Send_Broardcast_def
      by (simp add: S sizeof_Solax_Message_t_def DataLength_def)
  next
    case STATE_INVERTER_ADDRESS
    have "unat (DataLength
             ((memcpy_Data
                ((replicate sizeof_Solax_Message_t 0)
                   [2 := 0x00, 3 := 0x00, 4 := 0x00, 5 := 0x00, 6 := 0x10, 7 := 0x01, 8 := 0x0F])
                serial 14)
               [9 + 14 := word_of_int addr])) = 15"
      by (simp add: DataLength_def memcpy_Data_def sizeof_Solax_Message_t_def nth_append)
    moreover have "length
             ((memcpy_Data
                ((replicate sizeof_Solax_Message_t 0)
                   [2 := 0x00, 3 := 0x00, 4 := 0x00, 5 := 0x00, 6 := 0x10, 7 := 0x01, 8 := 0x0F])
                serial 14)
               [9 + 14 := word_of_int addr]) = 109"
      using assms by (simp add: memcpy_Data_def sizeof_Solax_Message_t_def)
    ultimately show ?thesis
      unfolding solax_SendQuery_def solax_Send_InverterAddress_def STATE_INVERTER_ADDRESS
      by (simp only: Solax_StateQuery_t.case) (intro S, simp_all)
  next
    case STATE_QUERY_LIVE_DATA
    then show ?thesis
      unfolding solax_SendQuery_def solax_Send_QueryLiveData_def
      by (simp add: S sizeof_Solax_Message_t_def DataLength_def)
  qed
qed

lemma QueryHandle_tick_buffers [simp]:
  "rxMessage (QueryHandle_tick e st) = rxMessage st"
  "solax_InverterSerialNumber (QueryHandle_tick e st) = solax_InverterSerialNumber st"
  by (cases "stateQuery st";
      simp add: QueryHandle_tick_def QueryHandle_online_eq QueryHandle_switch_def Let_def)+

lemma solax_QueryHandle_Some:
  assumes rq: "solax_ReceiveQuery F (stateQuery st) st liveData0 r = Some (e, l, st1)"
    and e: "e \<noteq> ERR_MINUS_1"
    and ser: "length (solax_InverterSerialNumber st1) = 15"
  shows "\<exists>frame. solax_QueryHandle F addr st liveData0 r write_all =
           Some (e, l, QueryHandle_tick e st1, frame)"
proof -
  have "length (solax_InverterSerialNumber (QueryHandle_tick e st1)) = 15"
    using ser by simp
  from solax_SendQuery_Some [OF this, of addr "stateQuery (QueryHandle_tick e st1)"]
  obtain m frame where
    "solax_SendQuery addr (solax_InverterSerialNumber (QueryHandle_tick e st1))
       (stateQuery (QueryHandle_tick e st1)) write_all = Some (m, frame, ERR_NONE)"
    by blast
  then show ?thesis
    using e unfolding solax_QueryHandle_def rq Let_def QueryHandle_tick_def [symmetric]
    by simp
qed

lemma solax_ReceiveQuery_no_data:
  "solax_ReceiveQuery F sq st liveData0 (Some []) = Some (ERR_NO_DATA, LiveData_zero F, st)"
  by (cases sq) (simp_all add: solax_ReceiveQuery_def solax_RS485_Receive_empty)

lemma QueryHandle_calls_no_data:
  assumes "length (solax_InverterSerialNumber st) = 15"
  shows "QueryHandle_calls F addr st (replicate n (Some [])) =
           Some (fold QueryHandle_tick (replicate n ERR_NO_DATA) st)"
  using assms
proof (induction n arbitrary: st)
  case 0
  then show ?case by simp
next
  case (Suc n)
  obtain frame where
    "solax_QueryHandle F addr st (LiveData_zero F) (Some []) write_all =
       Some (ERR_NO_DATA, LiveData_zero F, QueryHandle_tick ERR_NO_DATA st, frame)"
    using solax_QueryHandle_Some [where F = F and st = st and ?liveData0.0 = "LiveData_zero F"
        and r = "Some []" and e = ERR_NO_DATA and l = "LiveData_zero F" and ?st1.0 = st
        and addr = addr] solax_ReceiveQuery_no_data [of F "stateQuery st" st "LiveData_zero F"]
      Suc.prems
    by auto
  then show ?case using Suc.IH [of "QueryHandle_tick ERR_NO_DATA st"] Suc.prems by simp
qed

lemma QueryHandle_calls_rx_msg_3:
  assumes "length (rxMessage st) = 109" "length (solax_InverterSerialNumber st) = 15"
    and "stateQuery st = STATE_QUERY_LIVE_DATA"
  shows "QueryHandle_calls F addr st (Some rx_msg_3 # rs) =
           QueryHandle_calls F addr
             (QueryHandle_tick ERR_NONE (st\<lparr>rxMessage := rx_msg_3 @ drop 61 (rxMessage st)\<rparr>)) rs"
proof -
  obtain frame where
    "solax_QueryHandle F addr st (LiveData_zero F) (Some rx_msg_3) write_all =
       Some (ERR_NONE,
             ReceiveQuery_LiveData F (rx_msg_3 @ drop 61 (rxMessage st)) (LiveData_zero F),
             QueryHandle_tick ERR_NONE (st\<lparr>rxMessage := rx_msg_3 @ drop 61 (rxMessage st)\<rparr>), frame)"
    using solax_QueryHandle_Some [where F = F and st = st and ?liveData0.0 = "LiveData_zero F"
        and r = "Some rx_msg_3" and e = ERR_NONE and addr = addr
        and l = "ReceiveQuery_LiveData F (rx_msg_3 @ drop 61 (rxMessage st)) (LiveData_zero F)"
        and ?st1.0 = "st\<lparr>rxMessage := rx_msg_3 @ drop 61 (rxMessage st)\<rparr>"]
      solax_ReceiveQuery_rx_msg_3 [OF assms(1), of F "LiveData_zero F"] assms(2,3)
    by auto
  then show ?thesis by simp
qed


lemma QueryHandle_calls_no_data_step:
  assumes "length (solax_InverterSerialNumber st) = 15"
  shows "QueryHandle_calls F addr st (Some [] # rs) =
           QueryHandle_calls F addr (QueryHandle_tick ERR_NO_DATA st) rs"
proof -
  obtain frame where
    "solax_QueryHandle F addr st (LiveData_zero F) (Some []) write_all =
       Some (ERR_NO_DATA, LiveData_zero F, QueryHandle_tick ERR_NO_DATA st, frame)"
    using solax_QueryHandle_Some [where F = F and st = st and ?liveData0.0 = "LiveData_zero F"
        and r = "Some []" and e = ERR_NO_DATA and l = "LiveData_zero F" and ?st1.0 = st
        and addr = addr] solax_ReceiveQuery_no_data [of F "stateQuery st" st "LiveData_zero F"]
      assms
    by auto
  then show ?thesis by simp
qed

lemma valid_sample_is_success:
  assumes "solax_ReceiveQuery F STATE_QUERY_LIVE_DATA st liveData0 r = Some (e, l, st1)"
    and "e \<noteq> ERR_MINUS_1" and "valid l"
  shows "e = ERR_NONE"
proof -
  obtain e0 m where rv: "solax_RS485_Receive (rxMessage st) r = Some (e0, m)"
    using assms(1) by (auto simp add: solax_ReceiveQuery_def split: option.splits)
  show ?thesis
    using assms unfolding solax_ReceiveQuery_def rv Let_def
    by (cases e0) (auto simp add: LiveData_zero_def split: if_splits)
qed

lemma statics_init_fields:
  "stateQuery statics_init = STATE_QUERY_LIVE_DATA" "countError statics_init = 0"
  "timeoutInverterOnline statics_init = 30" "\<not> solax_InverterOnline statics_init"
  "length (solax_InverterSerialNumber statics_init) = 15"
  by (simp_all add: statics_init_def TIMEOUT_INVERTER_ONLINE_def)

lemma QueryHandle_tick_fields:
  "e \<noteq> ERR_NONE \<Longrightarrow> stateQuery st = STATE_QUERY_LIVE_DATA \<Longrightarrow>
   stateQuery (QueryHandle_tick e st) =
     (if countError st + 1 \<ge> 3 then STATE_BROARDCAST else STATE_QUERY_LIVE_DATA) \<and>
   countError (QueryHandle_tick e st) = (if countError st + 1 \<ge> 3 then 0 else countError st + 1)"
  "stateQuery st = STATE_QUERY_LIVE_DATA \<Longrightarrow>
   stateQuery (QueryHandle_tick ERR_NONE st) = STATE_QUERY_LIVE_DATA \<and>
   countError (QueryHandle_tick ERR_NONE st) = countError st"
  by (simp_all add: QueryHandle_tick_def QueryHandle_online_eq QueryHandle_switch_def Let_def)

lemma control_rxMessage_update [simp]:
  "QueryHandle_tick e (st\<lparr>rxMessage := m\<rparr>) = (QueryHandle_tick e st)\<lparr>rxMessage := m\<rparr>"
  by (cases "stateQuery st";
      simp add: QueryHandle_tick_def QueryHandle_online_eq QueryHandle_switch_def Let_def)

text \<open>
  C3. From the start of the program, two passes without data are followed by a pass that
  receives the valid live-data response \<open>rx_msg_3\<close>: the error counter is still 2 after
  it, for the case \<open>STATE_QUERY_LIVE_DATA\<close> of the switch only clears
  \<open>timeoutInverterOnline\<close> on success. One more pass without data, a single failure after
  a success, then moves the machine to \<open>STATE_BROARDCAST\<close>.
\<close>

theorem C3_live_data_success_keeps_count:
  "map_option countError
     (QueryHandle_calls exact_ops 10 statics_init [Some [], Some [], Some rx_msg_3]) = Some 2 \<and>
   map_option stateQuery
     (QueryHandle_calls exact_ops 10 statics_init [Some [], Some [], Some rx_msg_3])
       = Some STATE_QUERY_LIVE_DATA \<and>
   map_option stateQuery
     (QueryHandle_calls exact_ops 10 statics_init [Some [], Some [], Some rx_msg_3, Some []])
       = Some STATE_BROARDCAST"
proof -
  let ?s1 = "QueryHandle_tick ERR_NO_DATA statics_init"
  let ?s2 = "QueryHandle_tick ERR_NO_DATA ?s1"
  let ?s3 = "QueryHandle_tick ERR_NONE (?s2\<lparr>rxMessage := rx_msg_3 @ drop 61 (rxMessage ?s2)\<rparr>)"
  let ?s4 = "QueryHandle_tick ERR_NO_DATA ?s3"
  have f1: "stateQuery ?s1 = STATE_QUERY_LIVE_DATA" "countError ?s1 = 1"
    using QueryHandle_tick_fields(1) [of ERR_NO_DATA statics_init]
    by (simp_all add: statics_init_fields)
  have f2: "stateQuery ?s2 = STATE_QUERY_LIVE_DATA" "countError ?s2 = 2"
    using QueryHandle_tick_fields(1) [of ERR_NO_DATA ?s1] f1 by simp_all
  have f3: "stateQuery ?s3 = STATE_QUERY_LIVE_DATA" "countError ?s3 = 2"
    using QueryHandle_tick_fields(2) [of ?s2] f2 by simp_all
  have f4: "stateQuery ?s4 = STATE_BROARDCAST"
    using QueryHandle_tick_fields(1) [of ERR_NO_DATA ?s3] f3 by simp
  have a1: "QueryHandle_calls exact_ops 10 statics_init (Some [] # rs) =
            QueryHandle_calls exact_ops 10 ?s1 rs" for rs
    by (rule QueryHandle_calls_no_data_step) (simp add: statics_init_fields)
  have a2: "QueryHandle_calls exact_ops 10 ?s1 (Some [] # rs) =
            QueryHandle_calls exact_ops 10 ?s2 rs" for rs
    by (rule QueryHandle_calls_no_data_step) (simp add: statics_init_fields)
  have a3: "QueryHandle_calls exact_ops 10 ?s2 (Some rx_msg_3 # rs) =
            QueryHandle_calls exact_ops 10 ?s3 rs" for rs
    by (rule QueryHandle_calls_rx_msg_3) (simp_all add: f2 statics_init_fields statics_init_rxMessage)
  have a4: "QueryHandle_calls exact_ops 10 ?s3 (Some [] # rs) =
            QueryHandle_calls exact_ops 10 ?s4 rs" for rs
    by (rule QueryHandle_calls_no_data_step) (simp add: statics_init_fields)
  show ?thesis
    unfolding a1 a2 a3 a4 QueryHandle_calls.simps(1) using f3 f4 by simp
qed

theorem C3_live_data_success_keeps_count_witness:
  "map_option countError
     (QueryHandle_calls exact_ops 10 statics_init [Some [], Some [], Some rx_msg_3]) \<noteq> Some 0"
  unfolding C3_live_data_success_keeps_count [THEN conjunct1] by simp




text \<open>
  C4, as the code has it. After the switch of every pass: while the flag is set the
  timeout counter is incremented, and the flag is cleared as soon as the counter is 30 or
  more; while it is clear it is set exactly when the counter is 0, and the counter is
  left alone. Hence the flag is set at the end of the very pass in which a live-data
  response is accepted while it was clear (the counter is then 0), and a response
  accepted while it is set leaves the counter at 1. While the flag is set and no
  response is accepted it stays set as long as the counter, one more with every pass,
  is below 30: it is cleared in the 30th such pass after the response that set it, and in
  the 29th after a response accepted while it was set. While the flag is clear and the
  counter is not 0, passes without an accepted response change neither.
\<close>

theorem C4_online_flag:
  "QueryHandle_online st =
     (if solax_InverterOnline st
      then st\<lparr>timeoutInverterOnline := timeoutInverterOnline st + 1,
              solax_InverterOnline := (timeoutInverterOnline st + 1 < 30)\<rparr>
      else st\<lparr>solax_InverterOnline := (timeoutInverterOnline st = 0)\<rparr>) \<and>
   (solax_ReceiveQuery F (stateQuery st) st liveData0 r = Some (e, l, st1) \<and> e \<noteq> ERR_MINUS_1 \<and>
    length (solax_InverterSerialNumber st1) = 15 \<longrightarrow>
      QueryHandle_statics (solax_QueryHandle F addr st liveData0 r write_all) =
        Some (QueryHandle_tick e st1) \<and>
      (stateQuery st = STATE_QUERY_LIVE_DATA \<and> valid l \<longrightarrow> e = ERR_NONE)) \<and>
   (stateQuery st = STATE_QUERY_LIVE_DATA \<and> \<not> solax_InverterOnline st \<longrightarrow>
      solax_InverterOnline (QueryHandle_tick ERR_NONE st) \<and>
      timeoutInverterOnline (QueryHandle_tick ERR_NONE st) = 0) \<and>
   (stateQuery st = STATE_QUERY_LIVE_DATA \<and> solax_InverterOnline st \<longrightarrow>
      solax_InverterOnline (QueryHandle_tick ERR_NONE st) \<and>
      timeoutInverterOnline (QueryHandle_tick ERR_NONE st) = 1) \<and>
   ((\<forall>e \<in> set errs. e \<noteq> ERR_NONE) \<and> solax_InverterOnline st \<and>
    timeoutInverterOnline st < 30 \<longrightarrow>
      solax_InverterOnline (fold QueryHandle_tick errs st) =
        (timeoutInverterOnline st + int (length errs) < 30)) \<and>
   ((\<forall>e \<in> set errs. e \<noteq> ERR_NONE) \<and> \<not> solax_InverterOnline st \<and>
    timeoutInverterOnline st \<noteq> 0 \<longrightarrow>
      \<not> solax_InverterOnline (fold QueryHandle_tick errs st) \<and>
      timeoutInverterOnline (fold QueryHandle_tick errs st) = timeoutInverterOnline st)"
proof (intro conjI impI)
  show "QueryHandle_online st =
     (if solax_InverterOnline st
      then st\<lparr>timeoutInverterOnline := timeoutInverterOnline st + 1,
              solax_InverterOnline := (timeoutInverterOnline st + 1 < 30)\<rparr>
      else st\<lparr>solax_InverterOnline := (timeoutInverterOnline st = 0)\<rparr>)"
    by (rule QueryHandle_online_eq)
next
  assume a: "solax_ReceiveQuery F (stateQuery st) st liveData0 r = Some (e, l, st1) \<and>
    e \<noteq> ERR_MINUS_1 \<and> length (solax_InverterSerialNumber st1) = 15"
  then obtain frame where
    "solax_QueryHandle F addr st liveData0 r write_all = Some (e, l, QueryHandle_tick e st1, frame)"
    using solax_QueryHandle_Some [of F st liveData0 r e l st1 addr] by blast
  then show "QueryHandle_statics (solax_QueryHandle F addr st liveData0 r write_all) =
        Some (QueryHandle_tick e st1)"
    by (simp add: QueryHandle_statics_def)
  assume "stateQuery st = STATE_QUERY_LIVE_DATA \<and> valid l"
  with a show "e = ERR_NONE"
    using valid_sample_is_success [of F st liveData0 r e l st1] by simp
next
  assume "stateQuery st = STATE_QUERY_LIVE_DATA \<and> \<not> solax_InverterOnline st"
  then show "solax_InverterOnline (QueryHandle_tick ERR_NONE st)"
    and "timeoutInverterOnline (QueryHandle_tick ERR_NONE st) = 0"
    by (simp_all add: QueryHandle_tick_live_data_success)
next
  assume "stateQuery st = STATE_QUERY_LIVE_DATA \<and> solax_InverterOnline st"
  then show "solax_InverterOnline (QueryHandle_tick ERR_NONE st)"
    and "timeoutInverterOnline (QueryHandle_tick ERR_NONE st) = 1"
    by (simp_all add: QueryHandle_tick_live_data_success)
next
  assume "(\<forall>e \<in> set errs. e \<noteq> ERR_NONE) \<and> solax_InverterOnline st \<and>
    timeoutInverterOnline st < 30"
  then show "solax_InverterOnline (fold QueryHandle_tick errs st) =
        (timeoutInverterOnline st + int (length errs) < 30)"
    using fold_tick_failures_online [of errs st] by simp
next
  assume "(\<forall>e \<in> set errs. e \<noteq> ERR_NONE) \<and> \<not> solax_InverterOnline st \<and>
    timeoutInverterOnline st \<noteq> 0"
  then show "\<not> solax_InverterOnline (fold QueryHandle_tick errs st)"
    and "timeoutInverterOnline (fold QueryHandle_tick errs st) = timeoutInverterOnline st"
    using fold_tick_failures_offline [of errs st] by simp_all
qed


lemma first_response_state:
  "stateQuery (QueryHandle_tick ERR_NONE statics_init) = STATE_QUERY_LIVE_DATA"
  "solax_InverterOnline (QueryHandle_tick ERR_NONE statics_init)"
  "timeoutInverterOnline (QueryHandle_tick ERR_NONE statics_init) = 0"
  using QueryHandle_tick_live_data_success [of statics_init] QueryHandle_tick_fields(2) [of statics_init]
  by (simp_all add: statics_init_fields)

lemma second_response_state:
  "solax_InverterOnline (QueryHandle_tick ERR_NONE (QueryHandle_tick ERR_NONE statics_init))"
  "timeoutInverterOnline (QueryHandle_tick ERR_NONE (QueryHandle_tick ERR_NONE statics_init)) = 1"
  using QueryHandle_tick_live_data_success [of "QueryHandle_tick ERR_NONE statics_init"]
  by (simp_all add: first_response_state)

theorem C4_online_flag_witness:
  "QueryHandle_statics (solax_QueryHandle exact_ops 10 statics_init (LiveData_zero exact_ops)
       (Some rx_msg_3) write_all) =
     Some (QueryHandle_tick ERR_NONE (statics_init\<lparr>rxMessage := rx_msg_3 @ replicate 48 0\<rparr>)) \<and>
   solax_InverterOnline (QueryHandle_tick ERR_NONE statics_init) \<and>
   timeoutInverterOnline (QueryHandle_tick ERR_NONE statics_init) = 0 \<and>
   timeoutInverterOnline (QueryHandle_tick ERR_NONE (QueryHandle_tick ERR_NONE statics_init)) = 1 \<and>
   solax_InverterOnline (fold QueryHandle_tick (replicate 29 ERR_NO_DATA)
       (QueryHandle_tick ERR_NONE statics_init)) \<and>
   \<not> solax_InverterOnline (fold QueryHandle_tick (replicate 30 ERR_NO_DATA)
       (QueryHandle_tick ERR_NONE statics_init)) \<and>
   \<not> solax_InverterOnline (fold QueryHandle_tick (replicate 5 ERR_NO_DATA) statics_init)"
proof -
  let ?l = "ReceiveQuery_LiveData exact_ops (rx_msg_3 @ replicate 48 0) (LiveData_zero exact_ops)"
  let ?st1 = "statics_init\<lparr>rxMessage := rx_msg_3 @ replicate 48 0\<rparr>"
  let ?on = "QueryHandle_tick ERR_NONE statics_init"
  have rq: "solax_ReceiveQuery exact_ops (stateQuery statics_init) statics_init
              (LiveData_zero exact_ops) (Some rx_msg_3) = Some (ERR_NONE, ?l, ?st1)"
    using solax_ReceiveQuery_rx_msg_3 [of statics_init exact_ops "LiveData_zero exact_ops"]
    by (simp add: statics_init_rxMessage statics_init_fields)
  have ser: "length (solax_InverterSerialNumber ?st1) = 15"
    by (simp add: statics_init_fields)
  note T1 = C4_online_flag [of statics_init exact_ops "LiveData_zero exact_ops" "Some rx_msg_3"
      ERR_NONE ?l ?st1 10 "replicate 5 ERR_NO_DATA"]
  note T2 = C4_online_flag [of ?on exact_ops "LiveData_zero exact_ops" "Some rx_msg_3"
      ERR_NONE ?l ?st1 10 "replicate 29 ERR_NO_DATA"]
  note T3 = C4_online_flag [of ?on exact_ops "LiveData_zero exact_ops" "Some rx_msg_3"
      ERR_NONE ?l ?st1 10 "replicate 30 ERR_NO_DATA"]
  have 1: "QueryHandle_statics (solax_QueryHandle exact_ops 10 statics_init (LiveData_zero exact_ops)
       (Some rx_msg_3) write_all) = Some (QueryHandle_tick ERR_NONE ?st1)"
    using T1 [THEN conjunct2, THEN conjunct1] rq ser by blast
  have 2: "solax_InverterOnline ?on \<and> timeoutInverterOnline ?on = 0"
    using T1 [THEN conjunct2, THEN conjunct2, THEN conjunct1] by (simp add: statics_init_fields)
  have 3: "timeoutInverterOnline (QueryHandle_tick ERR_NONE ?on) = 1"
    using T2 [THEN conjunct2, THEN conjunct2, THEN conjunct2, THEN conjunct1]
    by (simp add: first_response_state)
  have 4: "solax_InverterOnline (fold QueryHandle_tick (replicate 29 ERR_NO_DATA) ?on)"
    using T2 [THEN conjunct2, THEN conjunct2, THEN conjunct2, THEN conjunct2, THEN conjunct1]
    by (simp add: first_response_state)
  have 5: "\<not> solax_InverterOnline (fold QueryHandle_tick (replicate 30 ERR_NO_DATA) ?on)"
    using T3 [THEN conjunct2, THEN conjunct2, THEN conjunct2, THEN conjunct2, THEN conjunct1]
    by (simp add: first_response_state)
  have 6: "\<not> solax_InverterOnline (fold QueryHandle_tick (replicate 5 ERR_NO_DATA) statics_init)"
    using T1 [THEN conjunct2, THEN conjunct2, THEN conjunct2, THEN conjunct2, THEN conjunct2]
    by (simp add: statics_init_fields)
  from 1 2 3 4 5 6 show ?thesis by blast
qed

theorem C4_online_flag_counterexample:
  "\<not> solax_InverterOnline statics_init \<and>
   map_option solax_InverterOnline
     (QueryHandle_calls exact_ops 10 statics_init [Some rx_msg_3]) = Some True \<and>
   map_option solax_InverterOnline
     (QueryHandle_calls exact_ops 10 statics_init
        (Some rx_msg_3 # Some rx_msg_3 # replicate 28 (Some []))) = Some True \<and>
   map_option solax_InverterOnline
     (QueryHandle_calls exact_ops 10 statics_init
        (Some rx_msg_3 # Some rx_msg_3 # replicate 29 (Some []))) = Some False"
proof -
  let ?m = "rx_msg_3 @ drop 61 (rxMessage statics_init)"
  let ?s1 = "QueryHandle_tick ERR_NONE (statics_init\<lparr>rxMessage := ?m\<rparr>)"
  let ?m2 = "rx_msg_3 @ drop 61 (rxMessage ?s1)"
  let ?s2 = "QueryHandle_tick ERR_NONE (?s1\<lparr>rxMessage := ?m2\<rparr>)"
  have s1: "stateQuery ?s1 = STATE_QUERY_LIVE_DATA" "solax_InverterOnline ?s1"
    "timeoutInverterOnline ?s1 = 0" "length (rxMessage ?s1) = 109"
    "length (solax_InverterSerialNumber ?s1) = 15"
    by (simp_all add: first_response_state statics_init_fields statics_init_rxMessage rx_msg_3_frame)
  have s2: "solax_InverterOnline ?s2" "timeoutInverterOnline ?s2 = 1"
    "length (solax_InverterSerialNumber ?s2) = 15"
    by (simp_all add: second_response_state statics_init_fields)
  have a1: "QueryHandle_calls exact_ops 10 statics_init (Some rx_msg_3 # rs) =
            QueryHandle_calls exact_ops 10 ?s1 rs" for rs
    by (rule QueryHandle_calls_rx_msg_3) (simp_all add: statics_init_fields statics_init_rxMessage)
  have a2: "QueryHandle_calls exact_ops 10 ?s1 (Some rx_msg_3 # rs) =
            QueryHandle_calls exact_ops 10 ?s2 rs" for rs
    by (rule QueryHandle_calls_rx_msg_3) (rule s1)+
  have a3: "QueryHandle_calls exact_ops 10 ?s2 (replicate n (Some [])) =
            Some (fold QueryHandle_tick (replicate n ERR_NO_DATA) ?s2)" for n
    by (rule QueryHandle_calls_no_data) (rule s2)
  have f: "solax_InverterOnline (fold QueryHandle_tick (replicate n ERR_NO_DATA) ?s2) =
           (1 + int n < 30)" for n
    using fold_tick_failures_online [of "replicate n ERR_NO_DATA" ?s2] s2 by simp
  show ?thesis
    unfolding a1 a2 a3 QueryHandle_calls.simps(1)
    using s1(2) f [of 28] f [of 29] by (simp add: statics_init_fields)
qed


subsection \<open>The windowed average and the walk of the specification\<close>

lemma max_u8: "max (a :: u8) b = (if a < b then b else a)"
  by (simp add: max_def) auto

lemma Average_accumulate_spec: "Average_accumulate F acc s = spec_accumulate F acc s"
  by (cases acc) (simp add: Average_accumulate_def spec_accumulate_def flt_max_def max_u8)

lemma Average_divide_spec: "Average_divide F cnt acc = spec_divide F (unat cnt) acc"
proof -
  have "uint cnt = int (unat cnt)" by (simp only: uint_nat)
  moreover have "(cnt = 0) = (unat cnt = 0)" by (simp add: unat_eq_0)
  ultimately show ?thesis
    by (simp add: Average_divide_def spec_divide_def)
qed

lemma spec_step_stall:
  "\<not> valid (liveData ! walk_ptr w) \<Longrightarrow> (spec_step F liveData m ^^ n) w = w"
  by (induction n) (simp_all add: spec_step_def)

lemma Average_loop_walk:
  assumes W: "W < 255"
    and m: "unat max_idx < length liveData"
  shows "nat (W + 1) - unat i = n \<Longrightarrow> unat i \<le> nat (W + 1) \<Longrightarrow> unat cnt \<le> unat i \<Longrightarrow>
         unat idx < length liveData \<Longrightarrow>
         Average_loop F W liveData max_idx i idx cnt acc =
           Some (word_of_nat (walk_count
                   ((spec_step F liveData (unat max_idx) ^^ n)
                      \<lparr>walk_ptr = unat idx, walk_count = unat cnt, walk_acc = acc\<rparr>)),
                 walk_acc
                   ((spec_step F liveData (unat max_idx) ^^ n)
                      \<lparr>walk_ptr = unat idx, walk_count = unat cnt, walk_acc = acc\<rparr>))"
proof (induction n arbitrary: i idx cnt acc)
  case 0
  then have "W + 1 \<le> int (unat i)" by linarith
  then have "\<not> uint i \<le> W" by (simp only: uint_nat)
  then show ?case
    by (subst Average_loop.simps) simp
next
  case (Suc n)
  let ?w = "\<lparr>walk_ptr = unat idx, walk_count = unat cnt, walk_acc = acc\<rparr>"
  from Suc.prems have "int (unat i) \<le> W" by linarith
  then have le: "uint i \<le> W" by (simp only: uint_nat)
  with W have i255: "unat i < 255" unfolding uint_nat by linarith
  then have si: "unat (i + 1) = Suc (unat i)" by (rule unat_u8_Suc)
  have rem: "nat (W + 1) - unat (i + 1) = n" "unat (i + 1) \<le> nat (W + 1)"
    using Suc.prems si by linarith+
  show ?case
  proof (cases "valid (liveData ! unat idx)")
    case False
    then have st: "spec_step F liveData (unat max_idx) ?w = ?w"
      by (simp add: spec_step_def)
    have "Average_loop F W liveData max_idx (i + 1) idx cnt acc =
            Some (word_of_nat (walk_count ((spec_step F liveData (unat max_idx) ^^ n) ?w)),
                  walk_acc ((spec_step F liveData (unat max_idx) ^^ n) ?w))"
      using Suc.prems si by (intro Suc.IH rem) simp_all
    moreover have "Average_loop F W liveData max_idx i idx cnt acc =
        Average_loop F W liveData max_idx (i + 1) idx cnt acc"
      using le False Suc.prems(4) by (subst Average_loop.simps) simp
    moreover have "(spec_step F liveData (unat max_idx) ^^ Suc n) ?w =
        (spec_step F liveData (unat max_idx) ^^ n) (spec_step F liveData (unat max_idx) ?w)"
      by (simp only: funpow_Suc_right o_apply)
    ultimately show ?thesis by (simp only: st)
  next
    case True
    let ?idx' = "if idx \<noteq> 0 then idx - 1 else max_idx"
    let ?acc' = "Average_accumulate F acc (liveData ! unat idx)"
    have c255: "unat cnt < 255" using Suc.prems i255 by linarith
    then have sc: "unat (cnt + 1) = Suc (unat cnt)" by (rule unat_u8_Suc)
    have pi: "unat ?idx' = (if unat idx = 0 then unat max_idx else unat idx - 1)"
      by (simp add: unat_eq_0 unat_minus_one)
    have st: "spec_step F liveData (unat max_idx) ?w =
                \<lparr>walk_ptr = unat ?idx', walk_count = unat (cnt + 1), walk_acc = ?acc'\<rparr>"
      using True by (simp add: spec_step_def pi sc Average_accumulate_spec)
    have "unat ?idx' < length liveData"
      using Suc.prems(4) m unfolding pi by (auto intro: less_imp_diff_less)
    then have "Average_loop F W liveData max_idx (i + 1) ?idx' (cnt + 1) ?acc' =
            Some (word_of_nat (walk_count ((spec_step F liveData (unat max_idx) ^^ n)
                     \<lparr>walk_ptr = unat ?idx', walk_count = unat (cnt + 1), walk_acc = ?acc'\<rparr>)),
                  walk_acc ((spec_step F liveData (unat max_idx) ^^ n)
                     \<lparr>walk_ptr = unat ?idx', walk_count = unat (cnt + 1), walk_acc = ?acc'\<rparr>))"
      using Suc.prems si sc by (intro Suc.IH rem) simp_all
    moreover have "Average_loop F W liveData max_idx i idx cnt acc =
        Average_loop F W liveData max_idx (i + 1) ?idx' (cnt + 1) ?acc'"
      using le True Suc.prems(4) by (subst Average_loop.simps) simp
    moreover have "(spec_step F liveData (unat max_idx) ^^ Suc n) ?w =
        (spec_step F liveData (unat max_idx) ^^ n) (spec_step F liveData (unat max_idx) ?w)"
      by (simp only: funpow_Suc_right o_apply)
    ultimately show ?thesis by (simp only: st)
  qed
qed


lemma QoS_loop_count:
  "unat max_idx < length liveData \<Longrightarrow> unat max_idx < 255 \<Longrightarrow>
   unat max_idx + 1 - unat idx = n \<Longrightarrow> unat idx \<le> unat max_idx + 1 \<Longrightarrow>
   QoS_loop liveData max_idx idx qos =
     Some (qos + word_of_nat (length (filter valid (take n (drop (unat idx) liveData)))))"
proof (induction n arbitrary: idx qos)
  case 0
  then have "\<not> idx \<le> max_idx" by (simp add: word_le_nat_alt)
  then show ?case by (subst QoS_loop.simps) simp
next
  case (Suc n)
  then have le: "idx \<le> max_idx" and lt: "unat idx < length liveData" and i255: "unat idx < 255"
    by (simp_all add: word_le_nat_alt)
  have step: "unat (idx + 1) = Suc (unat idx)" using i255 by (rule unat_u8_Suc)
  have "QoS_loop liveData max_idx (idx + 1) (qos + (if valid (liveData ! unat idx) then 1 else 0)) =
        Some (qos + (if valid (liveData ! unat idx) then 1 else 0) +
              word_of_nat (length (filter valid (take n (drop (unat (idx + 1)) liveData)))))"
    using Suc.prems by (intro Suc.IH) (simp_all add: step)
  moreover have "take (Suc n) (drop (unat idx) liveData) =
      liveData ! unat idx # take n (drop (Suc (unat idx)) liveData)"
    using lt by (simp add: Cons_nth_drop_Suc [symmetric])
  ultimately show ?case using le lt
    by (subst QoS_loop.simps) (simp add: step)
qed

lemma walk_count_bound:
  "walk_count ((spec_step F liveData m ^^ n) w) \<le> walk_count w + n"
proof (induction n)
  case 0
  show ?case by simp
next
  case (Suc n)
  have "walk_count (spec_step F liveData m x) \<le> walk_count x + 1" for x
    by (simp add: spec_step_def)
  from this [of "(spec_step F liveData m ^^ n) w"] Suc show ?case by simp
qed

lemma solax_LiveData_Average_spec:
  assumes W: "W < 255" and idx: "unat idx < length liveData"
    and m: "unat max_idx < length liveData" "unat max_idx < 255"
  shows "solax_LiveData_Average F W liveData idx max_idx =
           Some (spec_average F W liveData (unat idx) (unat max_idx),
                 flt_div F
                   (flt_of_int F (uint (word_of_nat
                      (length (filter valid (take (unat max_idx + 1) liveData))) :: u8)))
                   (flt_of_int F (uint max_idx + 1)))"
proof -
  let ?w = "spec_walk F (nat (W + 1)) liveData (unat idx) (unat max_idx)"
  have loop: "Average_loop F W liveData max_idx 0 idx 0 (LiveData_zero F) =
                Some (word_of_nat (walk_count ?w), walk_acc ?w)"
    using Average_loop_walk [OF W m(1), where i = 0 and n = "nat (W + 1)" and cnt = 0
        and idx = idx and F = F and acc = "LiveData_zero F"] idx
    by (simp add: spec_walk_def)
  have "walk_count ?w \<le> nat (W + 1)"
    using walk_count_bound [where F = F and liveData = liveData and m = "unat max_idx"
        and n = "nat (W + 1)"
        and w = "\<lparr>walk_ptr = unat idx, walk_count = 0, walk_acc = LiveData_zero F\<rparr>"]
    by (simp add: spec_walk_def)
  with W have "walk_count ?w < 256" by linarith
  then have cnt: "unat (word_of_nat (walk_count ?w) :: u8) = walk_count ?w"
    by (simp add: unat_of_nat)
  have qos: "QoS_loop liveData max_idx 0 0 =
      Some (word_of_nat (length (filter valid (take (unat max_idx + 1) liveData))))"
    using QoS_loop_count [OF m, where idx = 0 and n = "unat max_idx + 1" and qos = 0] by simp
  show ?thesis
    unfolding solax_LiveData_Average_def loop qos
    by (simp add: Average_divide_spec cnt spec_average_def Let_def)
qed


lemma Average_loop_invalid:
  assumes "Average_loop F W liveData max_idx i idx cnt acc = Some y"
    and "\<not> valid (liveData ! unat idx)"
  shows "y = (cnt, acc)"
proof -
  have "\<not> valid (liveData ! unat idx) \<longrightarrow> y = (cnt, acc)"
    by (rule Average_loop.raw_induct
          [where P = "\<lambda>F W liveData max_idx i idx cnt acc y.
                        \<not> valid (liveData ! unat idx) \<longrightarrow> y = (cnt, acc)",
           OF _ assms(1)])
       (auto split: if_splits)
  with assms(2) show ?thesis by simp
qed

lemma solax_LiveData_Average_invalid:
  assumes "solax_LiveData_Average F W liveData idx max_idx = Some (avg, qos)"
    and "\<not> valid (liveData ! unat idx)"
  shows "avg = LiveData_zero F"
proof -
  obtain y where y: "Average_loop F W liveData max_idx 0 idx 0 (LiveData_zero F) = Some y"
    using assms(1) by (auto simp add: solax_LiveData_Average_def split: option.splits)
  have "y = (0, LiveData_zero F)"
    using Average_loop_invalid [OF y assms(2)] .
  with assms(1) y show ?thesis
    by (auto simp add: solax_LiveData_Average_def Average_divide_def split: option.splits)
qed


lemma main_pass_invalid:
  assumes "main_pass F W addr ms r wr = Some (Next_pass ms')"
    and "\<not> valid (main_liveData ms' ! unat (main_index ms))"
  shows "solax_LiveData ms' = LiveData_zero F"
proof -
  from assms(1) obtain error sample st frame avg qos where
    q: "solax_QueryHandle F addr (statics ms) (main_liveData ms ! unat (main_index ms)) r wr =
          Some (error, sample, st, frame)"
    and a: "solax_LiveData_Average F W ((main_liveData ms)[unat (main_index ms) := sample])
              (main_index ms) MAX_INDEX_OF_LIVE_DATA = Some (avg, qos)"
    and l: "main_liveData ms' = (main_liveData ms)[unat (main_index ms) := sample]"
    and s: "solax_LiveData ms' = avg"
    by (auto simp add: main_pass_def Let_def split: if_splits option.splits)
  from solax_LiveData_Average_invalid [OF a] assms(2) l s show ?thesis by simp
qed

lemma Average_loop_never_returns:
  assumes "255 \<le> W"
  shows "Average_loop F W liveData max_idx i idx cnt acc = None"
proof (cases "Average_loop F W liveData max_idx i idx cnt acc")
  case None
  then show ?thesis .
next
  case (Some y)
  have u: "255 \<le> V \<Longrightarrow> uint (j :: u8) \<le> V" for j V
    using uint_bounded [of j] by simp
  have "255 \<le> W \<longrightarrow> False"
    by (rule Average_loop.raw_induct
          [where P = "\<lambda>F W liveData max_idx i idx cnt acc y. 255 \<le> W \<longrightarrow> False", OF _ Some])
       (auto split: if_splits simp add: u)
  with assms show ?thesis by simp
qed

lemma solax_LiveData_Average_never_returns:
  "255 \<le> W \<Longrightarrow> solax_LiveData_Average F W liveData idx max_idx = None"
  by (simp add: solax_LiveData_Average_def Average_loop_never_returns)



text \<open>
  C7. For a window size \<open>W\<close> below 255 and indices inside the history,
  \<open>solax_LiveData_Average\<close> returns, and the snapshot it leaves is the one the
  specification words: \<open>W + 1\<close> steps from the current index, each of which leaves
  pointer, counter and sums alone at an invalid slot, and at a valid slot adds the nine
  measured fields, ORs \<open>ErrorBits\<close>, keeps the maxima of Energy_Today, Energy_Total,
  Runtime_Total and Status, moves the pointer back with wrap-around and increments the
  counter; at the end the nine sums are divided by the counter unless it is zero. A walk
  that stands at an invalid slot stays there for all remaining steps. From a window size
  of 255 on the function does not return: the loop counter \<open>i\<close> is a \<open>uint8_t\<close>, so
  \<open>i <= arg_AV_Samples\<close> holds at every value it takes, whatever the history holds.
\<close>

theorem C7_windowed_average:
  "(W < 255 \<and> unat idx < length liveData \<and> unat max_idx < length liveData \<and>
    unat max_idx < 255 \<longrightarrow>
      map_option fst (solax_LiveData_Average F W liveData idx max_idx) =
        Some (spec_average F W liveData (unat idx) (unat max_idx))) \<and>
   (\<not> valid (liveData ! walk_ptr w) \<longrightarrow>
      (spec_step F liveData (unat max_idx) ^^ n) w = w) \<and>
   (255 \<le> W \<longrightarrow> solax_LiveData_Average F W liveData idx max_idx = None)"
proof (intro conjI impI)
  assume a: "W < 255 \<and> unat idx < length liveData \<and> unat max_idx < length liveData \<and>
    unat max_idx < 255"
  then have "solax_LiveData_Average F W liveData idx max_idx =
      Some (spec_average F W liveData (unat idx) (unat max_idx),
            flt_div F
              (flt_of_int F (uint (word_of_nat
                 (length (filter valid (take (unat max_idx + 1) liveData))) :: u8)))
              (flt_of_int F (uint max_idx + 1)))"
    by (intro solax_LiveData_Average_spec) simp_all
  then show "map_option fst (solax_LiveData_Average F W liveData idx max_idx) =
        Some (spec_average F W liveData (unat idx) (unat max_idx))"
    by simp
next
  assume "\<not> valid (liveData ! walk_ptr w)"
  then show "(spec_step F liveData (unat max_idx) ^^ n) w = w"
    by (rule spec_step_stall)
next
  assume "255 \<le> W"
  then show "solax_LiveData_Average F W liveData idx max_idx = None"
    by (rule solax_LiveData_Average_never_returns)
qed

theorem C7_windowed_average_witness:
  "map_option fst
     (solax_LiveData_Average exact_ops 2
        [(LiveData_zero exact_ops)\<lparr>valid := True, Temperature := 40, Power := 300\<rparr>,
         LiveData_zero exact_ops,
         (LiveData_zero exact_ops)\<lparr>valid := True, Temperature := 20, Power := 100\<rparr>] 2 2) =
     Some ((LiveData_zero exact_ops)\<lparr>Temperature := 20, Power := 100\<rparr>) \<and>
   solax_LiveData_Average exact_ops 255
        [(LiveData_zero exact_ops)\<lparr>valid := True, Temperature := 40, Power := 300\<rparr>,
         LiveData_zero exact_ops,
         (LiveData_zero exact_ops)\<lparr>valid := True, Temperature := 20, Power := 100\<rparr>] 2 2 = None"
proof -
  let ?H = "[(LiveData_zero exact_ops)\<lparr>valid := True, Temperature := 40, Power := 300\<rparr>,
         LiveData_zero exact_ops,
         (LiveData_zero exact_ops)\<lparr>valid := True, Temperature := 20, Power := 100\<rparr>]"
  have s: "spec_average exact_ops 2 ?H 2 2 =
             (LiveData_zero exact_ops)\<lparr>Temperature := 20, Power := 100\<rparr>"
    by (simp add: spec_average_def spec_walk_def spec_step_def spec_accumulate_def spec_divide_def
        flt_max_def LiveData_zero_def exact_ops_simps Let_def numeral_3_eq_3)
  have "map_option fst (solax_LiveData_Average exact_ops 2 ?H 2 2) =
          Some (spec_average exact_ops 2 ?H (unat (2 :: u8)) (unat (2 :: u8)))"
    using C7_windowed_average [where W = 2 and idx = 2 and max_idx = 2 and liveData = ?H
        and F = exact_ops, THEN conjunct1] by simp
  moreover have "solax_LiveData_Average exact_ops 255 ?H 2 2 = None"
    using C7_windowed_average [where W = 255 and idx = 2 and max_idx = 2 and liveData = ?H
        and F = exact_ops, THEN conjunct2, THEN conjunct2] by simp
  ultimately show ?thesis by (simp add: s)
qed



end
